theory Spec2Isabelle
  imports Complex_Main
begin

section \<open>Data model (types.ts)\<close>

text \<open>
  The city builder keeps every quantity in a JavaScript \<open>number\<close>. The model reads a
  \<open>number\<close> as a real: sums, products and comparisons are the exact ones, and
  \<open>Math.floor\<close> is the floor of the reals. The rounding of IEEE doubles is modelled
  where a claim depends on it: for the smoothing step of the demand values, which has a
  second, double-precision model of its own (\<open>lerp_double\<close>).
  Strings are \<open>string\<close>; \<open>null\<close>/\<open>undefined\<close> is \<open>None\<close>.
\<close>

datatype BuildingCategory =
  RESIDENTIAL | COMMERCIAL | INDUSTRIAL | OFFICE | UTILITY | DECORATION | ROAD | TOOLS

record BuildingType =
  id_t :: string
  name_t :: string
  category :: BuildingCategory
  width :: real
  depth :: real
  height :: real
  color :: string
  cost :: real
  description :: string

record PlacedBuilding =
  id_b :: string
  typeId :: string
  x_b :: real
  z_b :: real
  rotation :: real
  variant :: "nat option"

datatype Weather = Clear | Rain | Fog

record RCI =
  res :: real
  com :: real
  ind :: real

record GameState =
  funds :: real
  population :: real
  jobs :: real
  happiness :: real
  level :: real
  rci :: RCI
  time :: real
  weather :: Weather

section \<open>Constants and the building catalog (constants.ts)\<close>

definition GRID_SIZE :: real where
  "GRID_SIZE = 128"

definition TILE_SIZE :: real where
  "TILE_SIZE = 10"

definition MAP_SIZE :: real where
  "MAP_SIZE = GRID_SIZE * TILE_SIZE"

definition INITIAL_FUNDS :: real where
  "INITIAL_FUNDS = 50000"

definition INITIAL_POPULATION :: real where
  "INITIAL_POPULATION = 0"

text \<open>The decimal text a template literal gives for a non-negative whole number.\<close>

fun show_nat :: "nat \<Rightarrow> string" where
  "show_nat n =
     (if n < 10 then [''0123456789'' ! n]
      else show_nat (n div 10) @ [''0123456789'' ! (n mod 10)])"

declare show_nat.simps [simp del]

definition createZone ::
  "string \<Rightarrow> string \<Rightarrow> BuildingCategory \<Rightarrow> string \<Rightarrow> real \<Rightarrow> real \<Rightarrow> BuildingType list" where
  "createZone prefix nm cat col baseCost baseHeight =
     map (\<lambda>size.
       \<lparr> id_t = prefix @ ''_'' @ show_nat size @ ''x'' @ show_nat size,
         name_t = nm @ '' '' @ show_nat size @ ''x'' @ show_nat size,
         category = cat,
         width = real size,
         depth = real size,
         height = baseHeight * (1 + (real size * 0.5)),
         color = col,
         cost = baseCost * real size * real size,
         description = show_nat size @ ''x'' @ show_nat size @ '' '' @ nm @ '' zone.'' \<rparr>)
       [1, 2, 3, 4]"

definition BUILDINGS :: "BuildingType list" where
  "BUILDINGS =
     [ \<lparr> id_t = ''tool_dezone'', name_t = ''De-Zone Tool'', category = TOOLS,
         width = 1, depth = 1, height = 0.1, color = ''#ff0000'', cost = 0,
         description = ''Removes zoning and buildings.'' \<rparr>,
       \<lparr> id_t = ''road_local'', name_t = ''Road'', category = ROAD,
         width = 1, depth = 1, height = 0.1, color = ''#374151'', cost = 10,
         description = ''Basic infrastructure.'' \<rparr> ]
     @ createZone ''res'' ''Residential'' RESIDENTIAL ''#4ade80'' 50 2
     @ createZone ''com'' ''Commercial'' COMMERCIAL ''#60a5fa'' 100 3
     @ createZone ''ind'' ''Industrial'' INDUSTRIAL ''#facc15'' 150 3
     @ createZone ''off'' ''Office'' OFFICE ''#c084fc'' 200 5
     @ createZone ''util_landfill'' ''Landfill'' UTILITY ''#854d0e'' 500 1.5
     @ createZone ''dec_park'' ''Park'' DECORATION ''#166534'' 100 0.5"

text \<open>\<open>BUILDINGS.find(t => t.id === typeId)\<close>: the first catalog entry with that id.\<close>

definition findType :: "string \<Rightarrow> BuildingType option" where
  "findType tid = find (\<lambda>t. id_t t = tid) BUILDINGS"

section \<open>Occupancy check (GameCanvas.checkCollision)\<close>

definition overlaps :: "PlacedBuilding \<Rightarrow> BuildingType \<Rightarrow> real \<Rightarrow> real \<Rightarrow> real \<Rightarrow> real \<Rightarrow> bool" where
  "overlaps b bType x z hw hd' =
     (let r1x1 = x_b b - (width bType * TILE_SIZE) / 2;
          r1x2 = x_b b + (width bType * TILE_SIZE) / 2;
          r1z1 = z_b b - (depth bType * TILE_SIZE) / 2;
          r1z2 = z_b b + (depth bType * TILE_SIZE) / 2;
          r2x1 = x - hw; r2x2 = x + hw; r2z1 = z - hd'; r2z2 = z + hd'
      in r1x1 < r2x2 \<and> r1x2 > r2x1 \<and> r1z1 < r2z2 \<and> r1z2 > r2z1)"

definition checkCollision ::
  "PlacedBuilding list \<Rightarrow> real \<Rightarrow> real \<Rightarrow> real \<Rightarrow> real \<Rightarrow> bool" where
  "checkCollision blds x z w d =
     (let halfMap = MAP_SIZE / 2;
          hw = (w * TILE_SIZE) / 2;
          hd' = (d * TILE_SIZE) / 2
      in if x - hw < - halfMap \<or> x + hw > halfMap \<or> z - hd' < - halfMap \<or> z + hd' > halfMap
         then True
         else list_ex (\<lambda>b. case findType (typeId b) of
                               None \<Rightarrow> False
                             | Some bType \<Rightarrow> overlaps b bType x z hw hd') blds)"

subsection \<open>The occupancy contract in the words of the specification\<close>

text \<open>
  A rectangle is (x1, x2, z1, z2). The candidate's rectangle is its centre plus and minus
  half of the footprint scaled by the tile size; a placed structure's rectangle comes from
  the footprint of its type.
\<close>

type_synonym rect = "real \<times> real \<times> real \<times> real"

definition footprint_rect :: "real \<Rightarrow> real \<Rightarrow> real \<Rightarrow> real \<Rightarrow> rect" where
  "footprint_rect cx cz w d =
     (cx - w * TILE_SIZE / 2, cx + w * TILE_SIZE / 2, cz - d * TILE_SIZE / 2, cz + d * TILE_SIZE / 2)"

definition outside_grid :: "rect \<Rightarrow> bool" where
  "outside_grid r =
     (case r of (x1, x2, z1, z2) \<Rightarrow>
        x1 < - (MAP_SIZE / 2) \<or> x2 > MAP_SIZE / 2 \<or> z1 < - (MAP_SIZE / 2) \<or> z2 > MAP_SIZE / 2)"

definition open_overlap :: "rect \<Rightarrow> rect \<Rightarrow> bool" where
  "open_overlap a b =
     (case a of (ax1, ax2, az1, az2) \<Rightarrow> case b of (bx1, bx2, bz1, bz2) \<Rightarrow>
        ax1 < bx2 \<and> ax2 > bx1 \<and> az1 < bz2 \<and> az2 > bz1)"

definition structure_rect :: "PlacedBuilding \<Rightarrow> rect option" where
  "structure_rect b = map_option (\<lambda>t. footprint_rect (x_b b) (z_b b) (width t) (depth t)) (findType (typeId b))"

definition spec_isOccupied :: "PlacedBuilding list \<Rightarrow> real \<Rightarrow> real \<Rightarrow> real \<Rightarrow> real \<Rightarrow> bool" where
  "spec_isOccupied blds cx cz w d =
     (outside_grid (footprint_rect cx cz w d) \<or>
      list_ex (\<lambda>b. case structure_rect b of
                     None \<Rightarrow> False
                   | Some r \<Rightarrow> open_overlap r (footprint_rect cx cz w d)) blds)"

section \<open>Simulation tick (App: time cycle and RCI effect)\<close>

text \<open>
  JavaScript's \<open>a % n\<close> on numbers: the remainder has the sign of the dividend, that is
  \<open>a - n * trunc (a / n)\<close> with truncation toward zero. The program only divides by 24.
\<close>

definition trunc :: "real \<Rightarrow> int" where
  "trunc v = (if 0 \<le> v then \<lfloor>v\<rfloor> else \<lceil>v\<rceil>)"

definition js_rem :: "real \<Rightarrow> real \<Rightarrow> real" where
  "js_rem a n = a - n * of_int (trunc (a / n))"

definition initialGameState :: GameState where
  "initialGameState =
     \<lparr> funds = INITIAL_FUNDS, population = INITIAL_POPULATION, jobs = 0, happiness = 100,
       level = 1, rci = \<lparr> res = 100, com = 50, ind = 50 \<rparr>, time = 8.0, weather = Clear \<rparr>"

definition lerp :: "real \<Rightarrow> real \<Rightarrow> real" where
  "lerp a b = a + (b - a) * 0.05"

definition targetRes :: "GameState \<Rightarrow> real" where
  "targetRes prev =
     (if population prev > 0
      then min 100 (max 0 (50 + (jobs prev - population prev) * 0.1))
      else 100)"

definition targetCom :: "GameState \<Rightarrow> real" where
  "targetCom prev = min 100 (max 0 ((population prev * 0.5 - jobs prev * 0.2) / 2))"

definition targetInd :: "GameState \<Rightarrow> real" where
  "targetInd prev = min 100 (max 0 ((population prev * 0.4 - jobs prev * 0.3) / 2))"

text \<open>
  One run of the interval callback. The two calls of \<open>Math.random()\<close> are the arguments
  \<open>gate\<close> (decides whether the weather is resampled) and \<open>roll\<close> (the categorical
  draw); both are in [0,1) in the program.
\<close>

definition tick :: "real \<Rightarrow> real \<Rightarrow> GameState \<Rightarrow> GameState" where
  "tick gate roll prev =
     (let newTime = js_rem (time prev + 0.008) 24;
          newWeather =
            (if gate < 0.00033
             then (if roll < 0.5 then Clear else if roll < 0.8 then Rain else Fog)
             else weather prev);
          jobPopRatio =
            (if jobs prev = 0 then 0
             else jobs prev / (if population prev = 0 then 1 else population prev))
      in prev\<lparr> time := newTime,
               weather := newWeather,
               rci := \<lparr> res = lerp (res (rci prev)) (targetRes prev),
                        com = lerp (com (rci prev)) (targetCom prev),
                        ind = lerp (ind (rci prev)) (targetInd prev) \<rparr> \<rparr>)"

text \<open>Consecutive ticks, one pair of random draws per tick.\<close>

definition ticks :: "(real \<times> real) list \<Rightarrow> GameState \<Rightarrow> GameState" where
  "ticks draws gs = foldl (\<lambda>s (gate, roll). tick gate roll s) gs draws"

section \<open>Population and jobs (App: stats effect)\<close>

definition statsStep :: "real \<times> real \<Rightarrow> PlacedBuilding \<Rightarrow> real \<times> real" where
  "statsStep acc b =
     (case acc of (newPop, newJobs) \<Rightarrow>
        (case findType (typeId b) of
           None \<Rightarrow> (newPop, newJobs)
         | Some bType \<Rightarrow>
             (let area = width bType * depth bType;
                  factor = 10
              in if category bType = RESIDENTIAL
                 then (newPop + area * factor * (1 + width bType * 0.5), newJobs)
                 else if category bType = COMMERCIAL \<or> category bType = INDUSTRIAL
                         \<or> category bType = OFFICE
                 then (newPop, newJobs + area * factor * (1 + width bType * 0.2))
                 else (newPop, newJobs))))"

definition updateStats :: "PlacedBuilding list \<Rightarrow> GameState \<Rightarrow> GameState" where
  "updateStats blds prev =
     (case foldl statsStep (0, 0) blds of (newPop, newJobs) \<Rightarrow>
        prev\<lparr> population := of_int \<lfloor>newPop\<rfloor>, jobs := of_int \<lfloor>newJobs\<rfloor> \<rparr>)"

subsection \<open>The per-structure contributions in the words of the specification\<close>

definition spec_population_of :: "PlacedBuilding \<Rightarrow> int" where
  "spec_population_of b =
     (case findType (typeId b) of
        None \<Rightarrow> 0
      | Some t \<Rightarrow>
          if category t = RESIDENTIAL
          then \<lfloor>(width t * depth t) * 10 * (1 + width t * 0.5)\<rfloor>
          else 0)"

definition spec_jobs_of :: "PlacedBuilding \<Rightarrow> int" where
  "spec_jobs_of b =
     (case findType (typeId b) of
        None \<Rightarrow> 0
      | Some t \<Rightarrow>
          if category t \<in> {COMMERCIAL, INDUSTRIAL, OFFICE}
          then \<lfloor>(width t * depth t) * 10 * (1 + width t * 0.2)\<rfloor>
          else 0)"

section \<open>Application state and its handlers (App, GameCanvas.handleClick)\<close>

record AppState =
  gameState :: GameState
  buildings :: "PlacedBuilding list"
  selectedBuildingId :: "string option"
  inspectedBuildingId :: "string option"
  isDemolishMode :: bool
  currentVariant :: nat

text \<open>
  What \<open>handleClick\<close> reads from the canvas: whether camera and scene are mounted, and
  the ghost group (absent before the scene is built) with its visibility and position.
\<close>

record Ghost =
  visible :: bool
  pos_x :: real
  pos_z :: real

record Canvas =
  mounted :: bool
  ghost :: "Ghost option"

definition handlePlaceBuilding :: "PlacedBuilding \<Rightarrow> AppState \<Rightarrow> AppState" where
  "handlePlaceBuilding building s =
     (if typeId building = ''tool_dezone'' then s
      else s\<lparr> buildings := buildings s @ [building\<lparr> variant := Some (currentVariant s) \<rparr>] \<rparr>)"

definition handleRemoveBuilding :: "string \<Rightarrow> AppState \<Rightarrow> AppState" where
  "handleRemoveBuilding i s =
     s\<lparr> buildings := filter (\<lambda>b. id_b b \<noteq> i) (buildings s),
        inspectedBuildingId :=
          (if inspectedBuildingId s = Some i then None else inspectedBuildingId s) \<rparr>"

text \<open>\<open>onUpdateGameState({ funds: v })\<close>: the only partial update the canvas sends.\<close>

definition onUpdateGameState :: "real \<Rightarrow> AppState \<Rightarrow> AppState" where
  "onUpdateGameState v s = s\<lparr> gameState := (gameState s)\<lparr> funds := v \<rparr> \<rparr>"

text \<open>The stats effect, run by React after the building list has changed.\<close>

definition statsEffect :: "AppState \<Rightarrow> AppState" where
  "statsEffect s = s\<lparr> gameState := updateStats (buildings s) (gameState s) \<rparr>"

definition getSelectedBuildingType :: "AppState \<Rightarrow> BuildingType option" where
  "getSelectedBuildingType s =
     (case selectedBuildingId s of
        None \<Rightarrow> None
      | Some sid \<Rightarrow> find (\<lambda>b. id_t b = sid) BUILDINGS)"

text \<open>
  \<open>handleClick\<close>. The ray pick of \<open>handleBuildingClick\<close> is the argument \<open>pick\<close>
  (the id stored on the building under the pointer, if any), the random id of a new
  structure is \<open>newId\<close>. The result is the new state and whether the
  "Not enough Simoleons!" alert was shown.
\<close>

definition demolishClick :: "string option \<Rightarrow> AppState \<Rightarrow> AppState" where
  "demolishClick pick s =
     (case pick of
        None \<Rightarrow> s
      | Some i \<Rightarrow> if i \<noteq> [] then handleRemoveBuilding i s else s)"

definition inspectClick :: "string option \<Rightarrow> AppState \<Rightarrow> AppState" where
  "inspectClick pick s =
     (case pick of
        None \<Rightarrow> s\<lparr> inspectedBuildingId := None \<rparr>
      | Some i \<Rightarrow> if i \<noteq> [] then s\<lparr> inspectedBuildingId := Some i \<rparr>
                  else s\<lparr> inspectedBuildingId := None \<rparr>)"

definition placeClick :: "Ghost \<Rightarrow> string \<Rightarrow> string \<Rightarrow> AppState \<Rightarrow> AppState \<times> bool" where
  "placeClick g sid newId s =
     (case getSelectedBuildingType s of
        None \<Rightarrow> (s, False)
      | Some bType \<Rightarrow>
          (let x = pos_x g; z = pos_z g
           in if \<not> checkCollision (buildings s) x z (width bType) (depth bType)
              then if funds (gameState s) \<ge> cost bType
                   then (onUpdateGameState (funds (gameState s) - cost bType)
                           (handlePlaceBuilding
                              \<lparr> id_b = newId, typeId = sid, x_b = x, z_b = z,
                                rotation = 0, variant = None \<rparr> s),
                         False)
                   else (s, True)
              else (s, False)))"

definition handleClick ::
  "Canvas \<Rightarrow> string option \<Rightarrow> string \<Rightarrow> AppState \<Rightarrow> AppState \<times> bool" where
  "handleClick cv pick newId s =
     (if \<not> mounted cv then (s, False)
      else if isDemolishMode s \<or> selectedBuildingId s = Some ''tool_dezone''
      then (demolishClick pick s, False)
      else (case (ghost cv, selectedBuildingId s) of
              (Some g, Some sid) \<Rightarrow>
                if visible g \<and> sid \<noteq> [] then placeClick g sid newId s
                else (inspectClick pick s, False)
            | _ \<Rightarrow> (inspectClick pick s, False)))"

text \<open>
  The game states the application can reach: the initial one, and from any reached state
  a tick, a stats recomputation for some building list, or a funds update.
\<close>

inductive reachable :: "GameState \<Rightarrow> bool" where
  reach_init: "reachable initialGameState"
| reach_tick: "reachable gs \<Longrightarrow> reachable (tick gate roll gs)"
| reach_stats: "reachable gs \<Longrightarrow> reachable (updateStats blds gs)"
| reach_funds: "reachable gs \<Longrightarrow> reachable (gs\<lparr> funds := v \<rparr>)"

definition rci_in_range :: "RCI \<Rightarrow> bool" where
  "rci_in_range r =
     (0 \<le> res r \<and> res r \<le> 100 \<and> 0 \<le> com r \<and> com r \<le> 100 \<and> 0 \<le> ind r \<and> ind r \<le> 100)"

section \<open>Sky and fog in the render loop (GameCanvas.animate)\<close>

text \<open>
  A three.js colour is its three channels. \<open>setHex\<close> reads them from the bytes of the
  hex number, each divided by 255; \<open>lerpColor\<close> is \<open>Color.lerp\<close>. The scene's fog is a
  linear \<open>Fog\<close> (colour, near, far) or an exponential \<open>FogExp2\<close> (colour, density).
\<close>

record Color =
  r_c :: real
  g_c :: real
  b_c :: real

definition setHex :: "nat \<Rightarrow> Color" where
  "setHex hex =
     \<lparr> r_c = real ((hex div 65536) mod 256) / 255,
       g_c = real ((hex div 256) mod 256) / 255,
       b_c = real (hex mod 256) / 255 \<rparr>"

definition lerpColor :: "Color \<Rightarrow> Color \<Rightarrow> real \<Rightarrow> Color" where
  "lerpColor c1 c2 alpha =
     \<lparr> r_c = r_c c1 + (r_c c2 - r_c c1) * alpha,
       g_c = g_c c1 + (g_c c2 - g_c c1) * alpha,
       b_c = b_c c1 + (b_c c2 - b_c c1) * alpha \<rparr>"

datatype SceneFog = LinearFog Color real real | FogExp2 Color real

record Scene =
  background :: Color
  fog :: "SceneFog option"

definition WATER :: nat where
  "WATER = 0x38bdf8"

definition targetSky :: "real \<Rightarrow> Weather \<Rightarrow> Color" where
  "targetSky tm w =
     (let isNight = (tm < 5 \<or> tm > 19);
          isDawnDusk = ((tm \<ge> 5 \<and> tm < 7) \<or> (tm > 17 \<and> tm \<le> 19));
          sky = (if isNight then setHex 0x0a0a15
                 else if isDawnDusk then setHex 0xffaa77
                 else setHex WATER)
      in if w = Rain then lerpColor sky (setHex 0x333344) 0.8
         else if w = Fog then lerpColor sky (setHex 0xcccccc) 0.9
         else sky)"

definition wNear :: "Weather \<Rightarrow> real" where
  "wNear w = (if w = Fog then 50 else if w = Rain then 300 else 600)"

definition wFar :: "Weather \<Rightarrow> real" where
  "wFar w = (if w = Fog then 900 else if w = Rain then 1500 else 2500)"

text \<open>The sky and fog part of one frame of \<open>animate\<close>, for the clock and weather it samples.\<close>

definition animateSky :: "real \<Rightarrow> Weather \<Rightarrow> Scene \<Rightarrow> Scene" where
  "animateSky tm w scene =
     (let sky = targetSky tm w
      in scene\<lparr> background := sky,
                fog := (case fog scene of
                          None \<Rightarrow> None
                        | Some (LinearFog c near far) \<Rightarrow>
                            Some (LinearFog sky (near + (wNear w - near) * 0.05)
                                                (far + (wFar w - far) * 0.05))
                        | Some (FogExp2 c density) \<Rightarrow> Some (FogExp2 sky density)) \<rparr>)"

text \<open>The scene as the mount effect builds it.\<close>

definition initialScene :: Scene where
  "initialScene = \<lparr> background = setHex WATER, fog = Some (LinearFog (setHex WATER) 600 2500) \<rparr>"

text \<open>
  The reading of "smoothed, never jump-cut" for one channel: the value shown after the
  frame lies strictly between the value shown before and the target.
\<close>

definition strictly_between :: "real \<Rightarrow> real \<Rightarrow> real \<Rightarrow> bool" where
  "strictly_between before after target =
     ((before < after \<and> after < target) \<or> (target < after \<and> after < before))"

section \<open>The smoothing step in double precision\<close>

text \<open>
  A JavaScript \<open>number\<close> is an IEEE 754 binary64 value, and every operation gives the
  double nearest to the exact result, a tie going to the even significand. \<open>fl\<close> is this
  rounding on the reals: the unit in the last place of \<open>v\<close> is 2 to the power
  \<open>\<lfloor>log 2 \<bar>v\<bar>\<rfloor> - 52\<close>, and never below 2 to the power -1074 (the subnormal range);
  \<open>v\<close> is rounded to a whole multiple of that unit. Overflow to \<open>Infinity\<close> is left
  out: the demand arithmetic stays below 2 to the power 1024 by far. A real \<open>v\<close> is a
  double when \<open>fl v = v\<close>.

  \<open>lerp_double\<close> is the expression of \<open>lerp\<close>, \<open>a + (b - a) * 0.05\<close>, as the program
  evaluates it: the literal 0.05 and the result of each operation rounded.
\<close>

definition round_even :: "real \<Rightarrow> int" where
  "round_even v =
     (let n = \<lfloor>v\<rfloor>; f = v - of_int n
      in if f < 1 / 2 then n
         else if 1 / 2 < f then n + 1
         else if even n then n else n + 1)"

definition ulp_exp :: "real \<Rightarrow> int" where
  "ulp_exp v = max (\<lfloor>log 2 \<bar>v\<bar>\<rfloor> - 52) (- 1074)"

definition fl :: "real \<Rightarrow> real" where
  "fl v = (if v = 0 then 0
           else of_int (round_even (v / 2 powi ulp_exp v)) * 2 powi ulp_exp v)"

definition lerp_double :: "real \<Rightarrow> real \<Rightarrow> real" where
  "lerp_double a b = fl (a + fl (fl (b - a) * fl 0.05))"

section \<open>Facts about the catalog\<close>

lemma show_nat_digits:
  "show_nat (Suc 0) = ''1''" "show_nat 2 = ''2''" "show_nat 3 = ''3''" "show_nat 4 = ''4''"
  by (simp_all add: show_nat.simps)

lemma createZone_unfold:
  "createZone prefix nm cat col baseCost baseHeight =
     [ \<lparr> id_t = prefix @ ''_1x1'', name_t = nm @ '' 1x1'', category = cat,
         width = 1, depth = 1, height = baseHeight * 1.5, color = col,
         cost = baseCost, description = ''1x1 '' @ nm @ '' zone.'' \<rparr>,
       \<lparr> id_t = prefix @ ''_2x2'', name_t = nm @ '' 2x2'', category = cat,
         width = 2, depth = 2, height = baseHeight * 2, color = col,
         cost = baseCost * 4, description = ''2x2 '' @ nm @ '' zone.'' \<rparr>,
       \<lparr> id_t = prefix @ ''_3x3'', name_t = nm @ '' 3x3'', category = cat,
         width = 3, depth = 3, height = baseHeight * 2.5, color = col,
         cost = baseCost * 9, description = ''3x3 '' @ nm @ '' zone.'' \<rparr>,
       \<lparr> id_t = prefix @ ''_4x4'', name_t = nm @ '' 4x4'', category = cat,
         width = 4, depth = 4, height = baseHeight * 3, color = col,
         cost = baseCost * 16, description = ''4x4 '' @ nm @ '' zone.'' \<rparr> ]"
  by (simp add: createZone_def show_nat_digits)

lemma findType_res_1x1:
  "findType ''res_1x1'' =
     Some \<lparr> id_t = ''res_1x1'', name_t = ''Residential 1x1'', category = RESIDENTIAL,
            width = 1, depth = 1, height = 3, color = ''#4ade80'', cost = 50,
            description = ''1x1 Residential zone.'' \<rparr>"
  by (simp add: findType_def BUILDINGS_def createZone_unfold)

lemma findType_mystery: "findType ''mystery'' = None"
  by (simp add: findType_def BUILDINGS_def createZone_unfold)

section \<open>Occupancy: the code against its contract\<close>

lemma overlaps_open_overlap:
  "overlaps b t x z (w * TILE_SIZE / 2) (d * TILE_SIZE / 2) =
     open_overlap (footprint_rect (x_b b) (z_b b) (width t) (depth t)) (footprint_rect x z w d)"
  by (simp add: overlaps_def open_overlap_def footprint_rect_def Let_def)

lemma checkCollision_refines:
  "checkCollision blds x z w d = spec_isOccupied blds x z w d"
proof -
  have "(case findType (typeId b) of None \<Rightarrow> False
          | Some t \<Rightarrow> overlaps b t x z (w * TILE_SIZE / 2) (d * TILE_SIZE / 2)) =
        (case structure_rect b of None \<Rightarrow> False
          | Some r \<Rightarrow> open_overlap r (footprint_rect x z w d))" for b
    by (cases "findType (typeId b)") (simp_all add: structure_rect_def overlaps_open_overlap)
  then show ?thesis
    by (simp add: checkCollision_def spec_isOccupied_def outside_grid_def footprint_rect_def Let_def)
qed

lemma checkCollision_set:
  "checkCollision blds x z w d \<longleftrightarrow>
     outside_grid (footprint_rect x z w d) \<or>
     (\<exists>b \<in> set blds. \<exists>t. findType (typeId b) = Some t \<and>
        open_overlap (footprint_rect (x_b b) (z_b b) (width t) (depth t)) (footprint_rect x z w d))"
proof -
  have "(case structure_rect b of None \<Rightarrow> False
          | Some r \<Rightarrow> open_overlap r (footprint_rect x z w d)) =
        (\<exists>t. findType (typeId b) = Some t \<and>
           open_overlap (footprint_rect (x_b b) (z_b b) (width t) (depth t)) (footprint_rect x z w d))" for b
    by (cases "findType (typeId b)") (simp_all add: structure_rect_def)
  then show ?thesis
    by (simp add: checkCollision_refines spec_isOccupied_def list_ex_iff)
qed

lemma touching_no_overlap:
  assumes "\<bar>cx - bx\<bar> = TILE_SIZE \<or> \<bar>cz - bz\<bar> = TILE_SIZE"
  shows "\<not> open_overlap (footprint_rect bx bz 1 1) (footprint_rect cx cz 1 1)"
  using assms by (auto simp: open_overlap_def footprint_rect_def TILE_SIZE_def)

text \<open>
  Claim C1. For every candidate placement and every list of placed structures,
  \<open>checkCollision\<close> answers true exactly when the candidate's rectangle (centre plus and
  minus half of the footprint times the tile size) leaves the grid or overlaps, under the
  open-interval test on both axes, the rectangle of some placed structure whose type
  resolves. A candidate outside the grid is occupied whatever the structures are, and two
  1x1 footprints whose centres are one tile size apart along an axis only touch: they do
  not collide.
\<close>

theorem checkCollision_contract:
  "(checkCollision blds x z w d \<longleftrightarrow>
      outside_grid (footprint_rect x z w d) \<or>
      (\<exists>b \<in> set blds. \<exists>t. findType (typeId b) = Some t \<and>
         open_overlap (footprint_rect (x_b b) (z_b b) (width t) (depth t))
                      (footprint_rect x z w d)))
   \<and> (outside_grid (footprint_rect x z w d) \<longrightarrow> checkCollision blds x z w d)
   \<and> (findType (typeId b) = Some t \<and> width t = 1 \<and> depth t = 1
        \<and> (\<bar>x - x_b b\<bar> = TILE_SIZE \<or> \<bar>z - z_b b\<bar> = TILE_SIZE)
        \<and> \<not> outside_grid (footprint_rect x z 1 1)
      \<longrightarrow> \<not> checkCollision [b] x z 1 1)"
proof (intro conjI impI)
  show "checkCollision blds x z w d \<longleftrightarrow>
      outside_grid (footprint_rect x z w d) \<or>
      (\<exists>b \<in> set blds. \<exists>t. findType (typeId b) = Some t \<and>
         open_overlap (footprint_rect (x_b b) (z_b b) (width t) (depth t))
                      (footprint_rect x z w d))"
    by (rule checkCollision_set)
next
  assume "outside_grid (footprint_rect x z w d)"
  then show "checkCollision blds x z w d"
    by (simp add: checkCollision_set)
next
  assume a: "findType (typeId b) = Some t \<and> width t = 1 \<and> depth t = 1
        \<and> (\<bar>x - x_b b\<bar> = TILE_SIZE \<or> \<bar>z - z_b b\<bar> = TILE_SIZE)
        \<and> \<not> outside_grid (footprint_rect x z 1 1)"
  then have "\<not> open_overlap (footprint_rect (x_b b) (z_b b) 1 1) (footprint_rect x z 1 1)"
    by (intro touching_no_overlap) simp
  with a show "\<not> checkCollision [b] x z 1 1"
    by (simp add: checkCollision_set)
qed

theorem checkCollision_contract_witness:
  "checkCollision [\<lparr> id_b = ''a'', typeId = ''res_1x1'', x_b = 0, z_b = 0, rotation = 0, variant = Some 0 \<rparr>] 0 0 1 1
   \<and> checkCollision [] 640 0 1 1
   \<and> \<not> checkCollision [\<lparr> id_b = ''a'', typeId = ''res_1x1'', x_b = 0, z_b = 0, rotation = 0, variant = Some 0 \<rparr>] 10 0 1 1"
proof -
  let ?b = "\<lparr> id_b = ''a'', typeId = ''res_1x1'', x_b = 0, z_b = 0, rotation = 0, variant = Some 0 \<rparr>"
  let ?t = "\<lparr> id_t = ''res_1x1'', name_t = ''Residential 1x1'', category = RESIDENTIAL,
            width = 1, depth = 1, height = 3, color = ''#4ade80'', cost = 50,
            description = ''1x1 Residential zone.'' \<rparr>"
  have 1: "checkCollision [?b] 0 0 1 1"
    using checkCollision_contract [of "[?b]" 0 0 1 1 ?b ?t]
    by (simp add: findType_res_1x1 open_overlap_def footprint_rect_def TILE_SIZE_def)
  have 2: "checkCollision [] 640 0 1 1"
    using checkCollision_contract [of "[]" 640 0 1 1 ?b ?t]
    by (simp add: outside_grid_def footprint_rect_def TILE_SIZE_def MAP_SIZE_def GRID_SIZE_def)
  have 3: "\<not> checkCollision [?b] 10 0 1 1"
    using checkCollision_contract [of "[?b]" 10 0 1 1 ?b ?t]
    by (simp add: findType_res_1x1 outside_grid_def open_overlap_def footprint_rect_def TILE_SIZE_def MAP_SIZE_def GRID_SIZE_def)
  from 1 2 3 show ?thesis by blast
qed

section \<open>Population and jobs: the code against the formulas\<close>

lemma catalog_footprints:
  "\<forall>t \<in> set BUILDINGS. width t \<in> {1, 2, 3, 4} \<and> depth t = width t"
  by (simp add: BUILDINGS_def createZone_unfold)

lemma findType_in_catalog: "findType tid = Some t \<Longrightarrow> t \<in> set BUILDINGS \<and> id_t t = tid"
  by (auto simp: findType_def find_Some_iff)

lemma findType_footprint:
  assumes "findType tid = Some t"
  shows "width t \<in> \<int>" and "depth t \<in> \<int>"
proof -
  from assms have "t \<in> set BUILDINGS" by (simp add: findType_in_catalog)
  with catalog_footprints have w: "width t \<in> {1, 2, 3, 4}" and d: "depth t = width t"
    by auto
  from w show "width t \<in> \<int>" by auto
  with d show "depth t \<in> \<int>" by simp
qed

lemma residential_whole:
  assumes "w \<in> \<int>" "d \<in> \<int>"
  shows "(w * d) * 10 * (1 + w * 0.5) \<in> (\<int> :: real set)"
proof -
  from assms obtain a b :: int where w: "w = of_int a" and d: "d = of_int b"
    by (auto elim!: Ints_cases)
  have "(w * d) * 10 * (1 + w * 0.5) = of_int (10 * a * b + 5 * a * a * b)"
    by (simp add: w d algebra_simps)
  then show ?thesis by (metis Ints_of_int)
qed

lemma jobs_whole:
  assumes "w \<in> \<int>" "d \<in> \<int>"
  shows "(w * d) * 10 * (1 + w * 0.2) \<in> (\<int> :: real set)"
proof -
  from assms obtain a b :: int where w: "w = of_int a" and d: "d = of_int b"
    by (auto elim!: Ints_cases)
  have "(w * d) * 10 * (1 + w * 0.2) = of_int (10 * a * b + 2 * a * a * b)"
    by (simp add: w d algebra_simps)
  then show ?thesis by (metis Ints_of_int)
qed

lemma floor_whole: "v \<in> \<int> \<Longrightarrow> real_of_int \<lfloor>v\<rfloor> = v"
  by (auto elim!: Ints_cases)

lemma statsStep_spec:
  "statsStep (p, j) b = (p + of_int (spec_population_of b), j + of_int (spec_jobs_of b))"
proof (cases "findType (typeId b)")
  case None
  then show ?thesis
    by (simp add: statsStep_def spec_population_of_def spec_jobs_of_def)
next
  case (Some t)
  have "(width t * depth t) * 10 * (1 + width t * 0.5) \<in> \<int>"
    by (intro residential_whole findType_footprint [OF Some])
  then have r: "width t * depth t * 10 * (1 + width t / 2) \<in> \<int>"
    by simp
  have "(width t * depth t) * 10 * (1 + width t * 0.2) \<in> \<int>"
    by (intro jobs_whole findType_footprint [OF Some])
  then have c: "width t * depth t * 10 * (1 + width t / 5) \<in> \<int>"
    by simp
  show ?thesis
    by (cases "category t")
       (simp_all add: statsStep_def spec_population_of_def spec_jobs_of_def Some Let_def
          floor_whole [OF r] floor_whole [OF c])
qed

lemma foldl_statsStep:
  "foldl statsStep (p, j) blds =
     (p + of_int (\<Sum>b\<leftarrow>blds. spec_population_of b), j + of_int (\<Sum>b\<leftarrow>blds. spec_jobs_of b))"
  by (induction blds arbitrary: p j) (simp_all add: statsStep_spec add.assoc)

lemma updateStats_totals:
  "updateStats blds gs =
     gs\<lparr> population := of_int (\<Sum>b\<leftarrow>blds. spec_population_of b),
         jobs := of_int (\<Sum>b\<leftarrow>blds. spec_jobs_of b) \<rparr>"
  by (simp add: updateStats_def foldl_statsStep)

text \<open>
  Claim C3. For every list of placed structures the recomputed population is the sum,
  over the structures whose type is Residential, of floor (area * 10 * (1 + width * 0.5)),
  and the recomputed jobs are the sum, over Commercial, Industrial and Office structures,
  of floor (area * 10 * (1 + width * 0.2)), with area = width * depth; every other
  category, and a structure whose type does not resolve, adds nothing. The code floors the
  two running sums once at the end; the totals agree because every catalog footprint is a
  whole number of cells. One Residential 1x1 alone gives population 15 and jobs 0.
\<close>

theorem updateStats_sums:
  "population (updateStats blds gs) = of_int (\<Sum>b\<leftarrow>blds. spec_population_of b)
   \<and> jobs (updateStats blds gs) = of_int (\<Sum>b\<leftarrow>blds. spec_jobs_of b)
   \<and> population (updateStats [\<lparr> id_b = i, typeId = ''res_1x1'', x_b = x, z_b = z,
                                  rotation = rot, variant = v \<rparr>] gs) = 15
   \<and> jobs (updateStats [\<lparr> id_b = i, typeId = ''res_1x1'', x_b = x, z_b = z,
                            rotation = rot, variant = v \<rparr>] gs) = 0"
  by (simp add: updateStats_totals spec_population_of_def spec_jobs_of_def findType_res_1x1)

section \<open>Structures of unknown type; placing and removing\<close>

lemma statsStep_unknown:
  "findType (typeId b) = None \<Longrightarrow> statsStep acc b = acc"
  by (cases acc) (simp add: statsStep_def)

text \<open>
  Claim C10. A placed structure whose typeId does not resolve in the catalog has no
  footprint in the occupancy check: the check answers the same with and without it, so a
  candidate inside the grid does not collide with it wherever it lies, also at the very
  same position. The aggregation of population and jobs skips it in the same way.
\<close>

theorem unknown_type_skipped:
  assumes "findType (typeId b) = None"
  shows "checkCollision (bs1 @ b # bs2) x z w d = checkCollision (bs1 @ bs2) x z w d
         \<and> (\<not> outside_grid (footprint_rect x z w d) \<longrightarrow> \<not> checkCollision [b] x z w d)
         \<and> updateStats (bs1 @ b # bs2) gs = updateStats (bs1 @ bs2) gs"
proof (intro conjI impI)
  show "checkCollision (bs1 @ b # bs2) x z w d = checkCollision (bs1 @ bs2) x z w d"
    using assms by (simp add: checkCollision_def Let_def)
next
  assume "\<not> outside_grid (footprint_rect x z w d)"
  with assms show "\<not> checkCollision [b] x z w d"
    by (simp add: checkCollision_refines spec_isOccupied_def structure_rect_def)
next
  show "updateStats (bs1 @ b # bs2) gs = updateStats (bs1 @ bs2) gs"
    by (simp add: updateStats_def statsStep_unknown [OF assms])
qed

theorem unknown_type_skipped_witness:
  "findType ''mystery'' = None
   \<and> \<not> outside_grid (footprint_rect 0 0 1 1)
   \<and> \<not> checkCollision [\<lparr> id_b = ''u'', typeId = ''mystery'', x_b = 0, z_b = 0,
                            rotation = 0, variant = None \<rparr>] 0 0 1 1"
proof -
  let ?b = "\<lparr> id_b = ''u'', typeId = ''mystery'', x_b = 0, z_b = 0, rotation = 0, variant = None \<rparr>"
  have h: "findType (typeId ?b) = None" by (simp add: findType_mystery)
  have i: "\<not> outside_grid (footprint_rect 0 0 1 1)"
    by (simp add: outside_grid_def footprint_rect_def TILE_SIZE_def MAP_SIZE_def GRID_SIZE_def)
  from unknown_type_skipped [OF h, of "[]" "[]" 0 0 1 1 initialGameState] i
  have "\<not> checkCollision [?b] 0 0 1 1" by blast
  with i findType_mystery show ?thesis by blast
qed

lemma place_then_remove:
  assumes "id_b b \<notin> id_b ` set (buildings s)"
  shows "buildings (handleRemoveBuilding (id_b b) (handlePlaceBuilding b s)) = buildings s"
proof -
  from assms have "\<forall>c \<in> set (buildings s). id_b c \<noteq> id_b b"
    by (metis image_eqI)
  then have "filter (\<lambda>c. id_b c \<noteq> id_b b) (buildings s) = buildings s"
    by (simp add: filter_id_conv)
  then show ?thesis
    by (simp add: handleRemoveBuilding_def handlePlaceBuilding_def)
qed

text \<open>
  Claim C8. Population and jobs are recomputed from the building list alone: the game
  state they are written into has no influence on them (no hidden state). Identifiers of
  placed structures are unique in the data model; for a structure b with an identifier of
  its own, one that no structure of the list carries, appending b
  (\<open>handlePlaceBuilding\<close>) and removing it again (\<open>handleRemoveBuilding\<close> of its id)
  gives back the list, and so exactly the same population and jobs.
\<close>

theorem place_remove_totals:
  "(id_b b \<notin> id_b ` set (buildings s) \<longrightarrow>
      updateStats (buildings (handleRemoveBuilding (id_b b) (handlePlaceBuilding b s))) gs
        = updateStats (buildings s) gs)
   \<and> population (updateStats blds gs) = population (updateStats blds gs')
   \<and> jobs (updateStats blds gs) = jobs (updateStats blds gs')"
  by (simp add: place_then_remove updateStats_totals)

theorem place_remove_totals_witness:
  "population (updateStats (buildings (handleRemoveBuilding ''n''
      (handlePlaceBuilding
         \<lparr> id_b = ''n'', typeId = ''res_1x1'', x_b = 10, z_b = 0, rotation = 0, variant = None \<rparr>
         \<lparr> gameState = initialGameState,
           buildings = [\<lparr> id_b = ''a'', typeId = ''res_1x1'', x_b = 0, z_b = 0,
                          rotation = 0, variant = Some 0 \<rparr>],
           selectedBuildingId = Some ''res_1x1'', inspectedBuildingId = None,
           isDemolishMode = False, currentVariant = 0 \<rparr>))) initialGameState) = 15"
proof -
  let ?b = "\<lparr> id_b = ''n'', typeId = ''res_1x1'', x_b = 10, z_b = 0, rotation = 0, variant = None \<rparr>"
  let ?s = "\<lparr> gameState = initialGameState,
           buildings = [\<lparr> id_b = ''a'', typeId = ''res_1x1'', x_b = 0, z_b = 0,
                          rotation = 0, variant = Some 0 \<rparr>],
           selectedBuildingId = Some ''res_1x1'', inspectedBuildingId = None,
           isDemolishMode = False, currentVariant = 0 \<rparr>"
  have h: "id_b ?b \<notin> id_b ` set (buildings ?s)" by simp
  from place_remove_totals [of ?b ?s initialGameState "[]" initialGameState] h
  have "updateStats (buildings (handleRemoveBuilding (id_b ?b) (handlePlaceBuilding ?b ?s))) initialGameState
        = updateStats (buildings ?s) initialGameState"
    by blast
  then show ?thesis
    by (simp add: updateStats_totals spec_population_of_def findType_res_1x1)
qed

section \<open>The simulation tick\<close>

lemma tick_fields:
  "time (tick gate roll gs) = js_rem (time gs + 0.008) 24"
  "weather (tick gate roll gs) =
     (if gate < 0.00033 then (if roll < 0.5 then Clear else if roll < 0.8 then Rain else Fog)
      else weather gs)"
  "rci (tick gate roll gs) =
     \<lparr> res = lerp (res (rci gs)) (targetRes gs),
       com = lerp (com (rci gs)) (targetCom gs),
       ind = lerp (ind (rci gs)) (targetInd gs) \<rparr>"
  by (simp_all add: tick_def Let_def)

text \<open>
  Claim C4, as amended. On a tick that resamples the weather (gate draw below 0.00033)
  with categorical draw r, the new weather is clear when r < 0.5, rain when
  0.5 \<le> r < 0.8, and fog otherwise: the two thresholds belong to the upper class, so a
  draw of exactly 0.5 gives rain and a draw of exactly 0.8 gives fog. On a tick without
  resample the weather is unchanged.
\<close>

theorem weather_resample:
  "(gate < 0.00033 \<longrightarrow>
      weather (tick gate roll gs) =
        (if roll < 0.5 then Clear else if roll < 0.8 then Rain else Fog))
   \<and> (\<not> gate < 0.00033 \<longrightarrow> weather (tick gate roll gs) = weather gs)"
  by (simp add: tick_fields)

theorem weather_resample_witness:
  "weather (tick 0 0.5 initialGameState) = Rain
   \<and> weather (tick 0 0.8 initialGameState) = Fog
   \<and> weather (tick 0 0.25 initialGameState) = Clear
   \<and> weather (tick 0.5 0.9 initialGameState) = Clear"
  using weather_resample [of 0 "0.5" initialGameState]
        weather_resample [of 0 "0.8" initialGameState]
        weather_resample [of 0 "0.25" initialGameState]
        weather_resample [of "0.5" "0.9" initialGameState]
  by (simp add: initialGameState_def)

text \<open>
  The claim C4 as first stated puts the draw 0.5 in the class clear and the draw 0.8 in
  the class rain. The code compares with \<open><\<close>: the tick that resamples with draw 0.5
  does not give clear, and the one with draw 0.8 does not give rain.
\<close>

theorem weather_draw_half_not_clear:
  "weather (tick 0 0.5 initialGameState) \<noteq> Clear
   \<and> weather (tick 0 0.8 initialGameState) \<noteq> Rain"
  by (simp add: tick_fields)

lemma lerp_range:
  assumes "0 \<le> c" "c \<le> 100" "0 \<le> t" "t \<le> 100"
  shows "0 \<le> lerp c t \<and> lerp c t \<le> 100"
proof -
  have "lerp c t = 0.95 * c + 0.05 * t"
    by (simp add: lerp_def field_simps)
  with assms show ?thesis by simp
qed

lemma targets_range:
  "0 \<le> targetRes gs" "targetRes gs \<le> 100"
  "0 \<le> targetCom gs" "targetCom gs \<le> 100"
  "0 \<le> targetInd gs" "targetInd gs \<le> 100"
  by (simp_all add: targetRes_def targetCom_def targetInd_def)

lemma tick_rci_in_range:
  "rci_in_range (rci gs) \<Longrightarrow> rci_in_range (rci (tick gate roll gs))"
  by (simp add: rci_in_range_def tick_fields lerp_range targets_range)

lemma updateStats_rci: "rci (updateStats blds gs) = rci gs"
  by (simp add: updateStats_def split: prod.splits)

lemma reachable_rci: "reachable gs \<Longrightarrow> rci_in_range (rci gs)"
proof (induction rule: reachable.induct)
  case reach_init
  show ?case by (simp add: initialGameState_def rci_in_range_def)
next
  case (reach_tick gs gate roll)
  then show ?case by (simp add: tick_rci_in_range)
next
  case (reach_stats gs blds)
  then show ?case by (simp add: updateStats_rci)
next
  case (reach_funds gs v)
  then show ?case by simp
qed

text \<open>
  Claim C6. In every reachable game state the three demand values res, com and ind lie in
  [0,100]. A tick preserves this: the three targets are clamped into [0,100], and a
  smoothing step from a value in [0,100] toward a target in [0,100] stays in [0,100].
\<close>

theorem rci_invariant:
  "(reachable gs \<longrightarrow> rci_in_range (rci gs))
   \<and> (rci_in_range (rci gs) \<longrightarrow> rci_in_range (rci (tick gate roll gs)))
   \<and> 0 \<le> targetRes gs \<and> targetRes gs \<le> 100
   \<and> 0 \<le> targetCom gs \<and> targetCom gs \<le> 100
   \<and> 0 \<le> targetInd gs \<and> targetInd gs \<le> 100
   \<and> (0 \<le> c \<and> c \<le> 100 \<and> 0 \<le> t \<and> t \<le> 100 \<longrightarrow> 0 \<le> lerp c t \<and> lerp c t \<le> 100)"
  by (simp add: reachable_rci tick_rci_in_range targets_range lerp_range)

theorem rci_invariant_witness:
  "reachable (tick 1 0 initialGameState)
   \<and> rci_in_range (rci (tick 1 0 initialGameState))
   \<and> rci_in_range (rci (tick 1 0 (tick 1 0 initialGameState)))
   \<and> 0 \<le> lerp 100 0 \<and> lerp 100 0 \<le> 100"
proof -
  have r: "reachable (tick 1 0 initialGameState)"
    by (intro reachable.intros)
  from rci_invariant [of "tick 1 0 initialGameState" 1 0 100 0] r
  show ?thesis by simp
qed

section \<open>The clock\<close>

lemma js_rem_nonneg: "0 \<le> a \<Longrightarrow> js_rem a 24 = a - 24 * of_int \<lfloor>a / 24\<rfloor>"
  by (simp add: js_rem_def trunc_def)

lemma js_rem_range:
  assumes "0 \<le> a"
  shows "0 \<le> js_rem a 24" and "js_rem a 24 < 24"
proof -
  have "of_int \<lfloor>a / 24\<rfloor> * 24 \<le> a"
    using floor_divide_lower [of 24 a] by simp
  moreover have "a < (of_int \<lfloor>a / 24\<rfloor> + 1) * 24"
    using floor_divide_upper [of 24 a] by simp
  ultimately show "0 \<le> js_rem a 24" and "js_rem a 24 < 24"
    by (simp_all add: js_rem_nonneg [OF assms] algebra_simps)
qed

lemma js_rem_small: "0 \<le> a \<Longrightarrow> a < 24 \<Longrightarrow> js_rem a 24 = a"
  by (simp add: js_rem_nonneg floor_eq_iff)

lemma js_rem_wrap: "24 \<le> a \<Longrightarrow> a < 48 \<Longrightarrow> js_rem a 24 = a - 24"
proof -
  assume a: "24 \<le> a" "a < 48"
  then have "\<lfloor>a / 24\<rfloor> = 1"
    by (simp add: floor_eq_iff)
  with a show ?thesis by (simp add: js_rem_nonneg)
qed

lemma js_rem_add:
  assumes "0 \<le> a" "0 \<le> c"
  shows "js_rem (js_rem a 24 + c) 24 = js_rem (a + c) 24"
proof -
  let ?q = "\<lfloor>a / 24\<rfloor>"
  have r: "js_rem a 24 = a - 24 * of_int ?q"
    by (rule js_rem_nonneg [OF assms(1)])
  have d: "(js_rem a 24 + c) / 24 = (a + c) / 24 - of_int ?q"
    by (simp add: r field_simps)
  have f: "\<lfloor>(a + c) / 24 - of_int ?q\<rfloor> = \<lfloor>(a + c) / 24\<rfloor> - ?q"
    by (rule floor_diff_of_int)
  have "0 \<le> js_rem a 24 + c"
    using js_rem_range(1) [OF assms(1)] assms(2) by simp
  then have "js_rem (js_rem a 24 + c) 24
      = (js_rem a 24 + c) - 24 * of_int \<lfloor>(js_rem a 24 + c) / 24\<rfloor>"
    by (rule js_rem_nonneg)
  also have "\<dots> = (a - 24 * of_int ?q + c) - 24 * of_int (\<lfloor>(a + c) / 24\<rfloor> - ?q)"
    by (simp only: d f) (simp only: r)
  also have "\<dots> = (a + c) - 24 * of_int \<lfloor>(a + c) / 24\<rfloor>"
    by (simp add: algebra_simps)
  also have "\<dots> = js_rem (a + c) 24"
    using assms by (intro js_rem_nonneg [symmetric]) simp
  finally show ?thesis .
qed

lemma tick_time: "time (tick gate roll gs) = js_rem (time gs + 0.008) 24"
  by (simp add: tick_def Let_def)

lemma ticks_Cons: "ticks ((gate, roll) # draws) gs = ticks draws (tick gate roll gs)"
  by (simp add: ticks_def)

lemma ticks_time:
  "0 \<le> time gs \<Longrightarrow> time gs < 24 \<Longrightarrow>
     time (ticks draws gs) = js_rem (time gs + 0.008 * real (length draws)) 24"
proof (induction draws arbitrary: gs)
  case Nil
  then show ?case by (simp add: ticks_def js_rem_small)
next
  case (Cons d draws)
  obtain gate roll where d: "d = (gate, roll)" by (cases d)
  have n: "0 \<le> time (tick gate roll gs)" "time (tick gate roll gs) < 24"
    using Cons.prems by (simp_all add: tick_time js_rem_range)
  have "time (ticks (d # draws) gs) = js_rem (time (tick gate roll gs) + 0.008 * real (length draws)) 24"
    by (simp only: d ticks_Cons Cons.IH [OF n])
  also have "\<dots> = js_rem (js_rem (time gs + 0.008) 24 + 0.008 * real (length draws)) 24"
    by (simp only: tick_time)
  also have "\<dots> = js_rem ((time gs + 0.008) + 0.008 * real (length draws)) 24"
    using Cons.prems by (intro js_rem_add) simp_all
  also have "(time gs + 0.008) + 0.008 * real (length draws) = time gs + 0.008 * real (length (d # draws))"
    by (simp add: algebra_simps)
  finally show ?case .
qed


text \<open>
  Claim C7. From a clock value in [0,24) one tick gives (clock + 0.008) % 24, again in
  [0,24): the clock plus 0.008 when that stays below 24, and the clock plus 0.008 minus 24
  when it does not, so the overflow wraps around and is not clamped. A tick at 23.995
  gives 0.003. After 3000 ticks, whose increments add up to 24, the clock is back at the
  value it started from.
\<close>

theorem clock_tick:
  "(0 \<le> time gs \<and> time gs < 24 \<longrightarrow>
      time (tick gate roll gs) = js_rem (time gs + 0.008) 24
      \<and> 0 \<le> time (tick gate roll gs) \<and> time (tick gate roll gs) < 24
      \<and> (time gs + 0.008 < 24 \<longrightarrow> time (tick gate roll gs) = time gs + 0.008)
      \<and> (24 \<le> time gs + 0.008 \<longrightarrow> time (tick gate roll gs) = time gs + 0.008 - 24))
   \<and> (time gs = 23.995 \<longrightarrow> time (tick gate roll gs) = 0.003)
   \<and> (0 \<le> time gs \<and> time gs < 24 \<and> length draws = 3000 \<longrightarrow>
        time (ticks draws gs) = time gs)"
proof (intro conjI impI)
  assume a: "0 \<le> time gs \<and> time gs < 24"
  then show "0 \<le> time (tick gate roll gs)" "time (tick gate roll gs) < 24"
    by (simp_all add: tick_time js_rem_range)
  show "time (tick gate roll gs) = js_rem (time gs + 0.008) 24"
    by (rule tick_time)
  show "time (tick gate roll gs) = time gs + 0.008" if "time gs + 0.008 < 24"
    using a that by (simp add: tick_time js_rem_small)
  show "time (tick gate roll gs) = time gs + 0.008 - 24" if "24 \<le> time gs + 0.008"
    using a that by (simp add: tick_time js_rem_wrap)
next
  assume "time gs = 23.995"
  then show "time (tick gate roll gs) = 0.003"
    by (simp add: tick_time js_rem_wrap)
next
  assume a: "0 \<le> time gs \<and> time gs < 24 \<and> length draws = 3000"
  then have "time (ticks draws gs) = js_rem (time gs + 24) 24"
    by (simp add: ticks_time)
  also have "\<dots> = time gs"
    using a by (simp add: js_rem_wrap)
  finally show "time (ticks draws gs) = time gs" .
qed

theorem clock_tick_witness:
  "time (tick 1 0 initialGameState) = 8.008
   \<and> time (tick 1 0 (initialGameState\<lparr> time := 23.995 \<rparr>)) = 0.003
   \<and> time (ticks (replicate 3000 (1, 0)) initialGameState) = 8"
proof -
  have h: "0 \<le> time initialGameState \<and> time initialGameState < 24"
    by (simp add: initialGameState_def)
  have t: "time initialGameState = 8"
    by (simp add: initialGameState_def)
  have 1: "time (tick 1 0 initialGameState) = 8.008"
    using clock_tick [of initialGameState 1 0 "replicate 3000 (1, 0)"] h by (simp add: t)
  have 2: "time (tick 1 0 (initialGameState\<lparr> time := 23.995 \<rparr>)) = 0.003"
    using clock_tick [of "initialGameState\<lparr> time := 23.995 \<rparr>" 1 0 "[]"] by simp
  have 3: "time (ticks (replicate 3000 (1, 0)) initialGameState) = 8"
    using clock_tick [of initialGameState 1 0 "replicate 3000 (1, 0)"] h by (simp add: t)
  from 1 2 3 show ?thesis by blast
qed

section \<open>Committing a placement\<close>

lemma catalog_ids_nonempty: "findType sid = Some t \<Longrightarrow> sid \<noteq> []"
proof -
  assume "findType sid = Some t"
  then have "t \<in> set BUILDINGS" "id_t t = sid"
    by (simp_all add: findType_in_catalog)
  moreover have "\<forall>t \<in> set BUILDINGS. id_t t \<noteq> []"
    by (simp add: BUILDINGS_def createZone_unfold)
  ultimately show ?thesis by blast
qed

lemma getSelected_findType:
  "selectedBuildingId s = Some sid \<Longrightarrow> getSelectedBuildingType s = findType sid"
  by (simp add: getSelectedBuildingType_def findType_def)

lemma placeClick_poor:
  assumes "selectedBuildingId s = Some sid" "findType sid = Some bType"
    and "funds (gameState s) < cost bType"
  shows "fst (placeClick g sid newId s) = s"
  using assms by (simp add: placeClick_def getSelected_findType Let_def)

lemma placeClick_commit:
  assumes "selectedBuildingId s = Some sid" "findType sid = Some bType" "sid \<noteq> ''tool_dezone''"
    and "cost bType \<le> funds (gameState s)"
    and "\<not> checkCollision (buildings s) (pos_x g) (pos_z g) (width bType) (depth bType)"
  shows "placeClick g sid newId s =
           (s\<lparr> buildings := buildings s @
                   [\<lparr> id_b = newId, typeId = sid, x_b = pos_x g, z_b = pos_z g,
                      rotation = 0, variant = Some (currentVariant s) \<rparr>],
               gameState := (gameState s)\<lparr> funds := funds (gameState s) - cost bType \<rparr> \<rparr>,
            False)"
  using assms
  by (simp add: placeClick_def getSelected_findType Let_def onUpdateGameState_def
        handlePlaceBuilding_def)

lemma placeClick_funds:
  "0 \<le> funds (gameState s) \<Longrightarrow> 0 \<le> funds (gameState (fst (placeClick g sid newId s)))"
  by (simp add: placeClick_def Let_def onUpdateGameState_def handlePlaceBuilding_def
        split: option.splits)

lemma demolishClick_gameState: "gameState (demolishClick pick s) = gameState s"
  by (simp add: demolishClick_def handleRemoveBuilding_def split: option.splits)

lemma inspectClick_gameState: "gameState (inspectClick pick s) = gameState s"
  by (simp add: inspectClick_def split: option.splits)

lemma handleClick_placement:
  assumes "mounted cv" "\<not> isDemolishMode s" "selectedBuildingId s = Some sid"
    and "sid \<noteq> ''tool_dezone''" "ghost cv = Some g" "visible g" "findType sid = Some bType"
  shows "handleClick cv pick newId s = placeClick g sid newId s"
  using assms catalog_ids_nonempty [of sid bType]
  by (simp add: handleClick_def)

text \<open>
  Claim C2. With a structure type armed (canvas mounted, not in demolish mode, the selected
  id resolves and is not the de-zone tool, ghost visible), a click with funds below the
  cost of the type leaves the whole application state, and so funds and building list, as
  they were; a click with funds at least the cost and a preview that does not collide
  appends exactly one structure (the new id, the selected type, the ghost position, the
  current variant) and lowers funds by exactly the cost. Whatever the click does, funds
  that were not negative before are not negative after.
\<close>

theorem handleClick_funds:
  "(mounted cv \<and> \<not> isDemolishMode s \<and> selectedBuildingId s = Some sid
      \<and> sid \<noteq> ''tool_dezone'' \<and> ghost cv = Some g \<and> visible g
      \<and> findType sid = Some bType \<and> funds (gameState s) < cost bType
    \<longrightarrow> fst (handleClick cv pick newId s) = s)
   \<and> (mounted cv \<and> \<not> isDemolishMode s \<and> selectedBuildingId s = Some sid
      \<and> sid \<noteq> ''tool_dezone'' \<and> ghost cv = Some g \<and> visible g
      \<and> findType sid = Some bType \<and> cost bType \<le> funds (gameState s)
      \<and> \<not> checkCollision (buildings s) (pos_x g) (pos_z g) (width bType) (depth bType)
    \<longrightarrow> buildings (fst (handleClick cv pick newId s)) =
          buildings s @ [\<lparr> id_b = newId, typeId = sid, x_b = pos_x g, z_b = pos_z g,
                            rotation = 0, variant = Some (currentVariant s) \<rparr>]
        \<and> funds (gameState (fst (handleClick cv pick newId s))) = funds (gameState s) - cost bType)
   \<and> (0 \<le> funds (gameState s)
        \<longrightarrow> 0 \<le> funds (gameState (fst (handleClick cv pick newId s))))"
proof (intro conjI impI)
  assume a: "mounted cv \<and> \<not> isDemolishMode s \<and> selectedBuildingId s = Some sid
      \<and> sid \<noteq> ''tool_dezone'' \<and> ghost cv = Some g \<and> visible g
      \<and> findType sid = Some bType \<and> funds (gameState s) < cost bType"
  then have "handleClick cv pick newId s = placeClick g sid newId s"
    by (intro handleClick_placement) simp_all
  with a show "fst (handleClick cv pick newId s) = s"
    by (simp add: placeClick_poor)
next
  assume a: "mounted cv \<and> \<not> isDemolishMode s \<and> selectedBuildingId s = Some sid
      \<and> sid \<noteq> ''tool_dezone'' \<and> ghost cv = Some g \<and> visible g
      \<and> findType sid = Some bType \<and> cost bType \<le> funds (gameState s)
      \<and> \<not> checkCollision (buildings s) (pos_x g) (pos_z g) (width bType) (depth bType)"
  then have h: "handleClick cv pick newId s = placeClick g sid newId s"
    by (intro handleClick_placement) simp_all
  from a have p: "placeClick g sid newId s =
           (s\<lparr> buildings := buildings s @
                   [\<lparr> id_b = newId, typeId = sid, x_b = pos_x g, z_b = pos_z g,
                      rotation = 0, variant = Some (currentVariant s) \<rparr>],
               gameState := (gameState s)\<lparr> funds := funds (gameState s) - cost bType \<rparr> \<rparr>,
            False)"
    by (intro placeClick_commit) simp_all
  show "buildings (fst (handleClick cv pick newId s)) =
          buildings s @ [\<lparr> id_b = newId, typeId = sid, x_b = pos_x g, z_b = pos_z g,
                            rotation = 0, variant = Some (currentVariant s) \<rparr>]"
    by (simp add: h p)
  show "funds (gameState (fst (handleClick cv pick newId s))) = funds (gameState s) - cost bType"
    by (simp add: h p)
next
  assume "0 \<le> funds (gameState s)"
  then show "0 \<le> funds (gameState (fst (handleClick cv pick newId s)))"
    by (simp add: handleClick_def placeClick_funds demolishClick_gameState
          inspectClick_gameState split: option.splits)
qed

theorem handleClick_funds_witness:
  "fst (handleClick \<lparr> mounted = True, ghost = Some \<lparr> visible = True, pos_x = 0, pos_z = 0 \<rparr> \<rparr>
          None ''n1''
          \<lparr> gameState = initialGameState\<lparr> funds := 20 \<rparr>, buildings = [],
            selectedBuildingId = Some ''res_1x1'', inspectedBuildingId = None,
            isDemolishMode = False, currentVariant = 0 \<rparr>)
     = \<lparr> gameState = initialGameState\<lparr> funds := 20 \<rparr>, buildings = [],
         selectedBuildingId = Some ''res_1x1'', inspectedBuildingId = None,
         isDemolishMode = False, currentVariant = 0 \<rparr>
   \<and> buildings (fst (handleClick
          \<lparr> mounted = True, ghost = Some \<lparr> visible = True, pos_x = 0, pos_z = 0 \<rparr> \<rparr>
          None ''n1''
          \<lparr> gameState = initialGameState, buildings = [],
            selectedBuildingId = Some ''res_1x1'', inspectedBuildingId = None,
            isDemolishMode = False, currentVariant = 0 \<rparr>))
     = [\<lparr> id_b = ''n1'', typeId = ''res_1x1'', x_b = 0, z_b = 0, rotation = 0, variant = Some 0 \<rparr>]
   \<and> funds (gameState (fst (handleClick
          \<lparr> mounted = True, ghost = Some \<lparr> visible = True, pos_x = 0, pos_z = 0 \<rparr> \<rparr>
          None ''n1''
          \<lparr> gameState = initialGameState, buildings = [],
            selectedBuildingId = Some ''res_1x1'', inspectedBuildingId = None,
            isDemolishMode = False, currentVariant = 0 \<rparr>))) = 49950"
proof -
  let ?cv = "\<lparr> mounted = True, ghost = Some \<lparr> visible = True, pos_x = 0, pos_z = 0 \<rparr> \<rparr>"
  let ?g = "\<lparr> visible = True, pos_x = 0, pos_z = 0 \<rparr>"
  let ?poor = "\<lparr> gameState = initialGameState\<lparr> funds := 20 \<rparr>, buildings = [],
            selectedBuildingId = Some ''res_1x1'', inspectedBuildingId = None,
            isDemolishMode = False, currentVariant = 0 \<rparr>"
  let ?rich = "\<lparr> gameState = initialGameState, buildings = [],
            selectedBuildingId = Some ''res_1x1'', inspectedBuildingId = None,
            isDemolishMode = False, currentVariant = 0 \<rparr>"
  let ?t = "\<lparr> id_t = ''res_1x1'', name_t = ''Residential 1x1'', category = RESIDENTIAL,
            width = 1, depth = 1, height = 3, color = ''#4ade80'', cost = 50,
            description = ''1x1 Residential zone.'' \<rparr>"
  have free: "\<not> checkCollision [] 0 0 1 1"
    by (simp add: checkCollision_def TILE_SIZE_def MAP_SIZE_def GRID_SIZE_def)
  have 1: "fst (handleClick ?cv None ''n1'' ?poor) = ?poor"
    using handleClick_funds [of ?cv ?poor "''res_1x1''" ?g ?t None "''n1''"]
    by (simp add: findType_res_1x1)
  have 2: "buildings (fst (handleClick ?cv None ''n1'' ?rich))
             = [\<lparr> id_b = ''n1'', typeId = ''res_1x1'', x_b = 0, z_b = 0, rotation = 0, variant = Some 0 \<rparr>]
           \<and> funds (gameState (fst (handleClick ?cv None ''n1'' ?rich))) = 49950"
    using handleClick_funds [of ?cv ?rich "''res_1x1''" ?g ?t None "''n1''"] free
    by (simp add: findType_res_1x1 initialGameState_def INITIAL_FUNDS_def)
  from 1 2 show ?thesis by blast
qed

section \<open>Sky and fog in a frame\<close>

lemma animateSky_background: "background (animateSky tm w sc) = targetSky tm w"
  by (simp add: animateSky_def Let_def)

lemma animateSky_linear_fog:
  "fog sc = Some (LinearFog c near far) \<Longrightarrow>
     fog (animateSky tm w sc) =
       Some (LinearFog (targetSky tm w) (near + (wNear w - near) * 0.05)
                                        (far + (wFar w - far) * 0.05))"
  by (simp add: animateSky_def Let_def)

text \<open>
  Claim C9, as amended. On every render frame the displayed sky colour (the scene
  background) is set to the instantaneous target colour of the sampled clock and weather,
  and the fog colour is a copy of that target: both are assigned, not smoothed. What the
  frame smooths exponentially, by 0.05 of the remaining distance, are the near and far
  distances of the linear fog, toward the values of the weather.
\<close>

theorem sky_assigned_fog_range_smoothed:
  "background (animateSky tm w sc) = targetSky tm w
   \<and> (fog sc = Some (LinearFog c near far) \<longrightarrow>
        fog (animateSky tm w sc) =
          Some (LinearFog (targetSky tm w) (near + (wNear w - near) * 0.05)
                                           (far + (wFar w - far) * 0.05)))"
  by (simp add: animateSky_background animateSky_linear_fog)

theorem sky_assigned_fog_range_smoothed_witness:
  "fog initialScene = Some (LinearFog (setHex WATER) 600 2500)
   \<and> background (animateSky 12 Rain initialScene) = targetSky 12 Rain
   \<and> fog (animateSky 12 Rain initialScene) = Some (LinearFog (targetSky 12 Rain) 585 2450)"
proof -
  have h: "fog initialScene = Some (LinearFog (setHex WATER) 600 2500)"
    by (simp add: initialScene_def)
  from sky_assigned_fog_range_smoothed [of 12 Rain initialScene "setHex WATER" 600 2500] h
  show ?thesis by (simp add: wNear_def wFar_def)
qed

text \<open>
  The claim C9 as first stated, that the displayed colour moves strictly between its
  previous value and the target, fails across 05:00: a frame at clock 4.996 shows the night
  colour, and the frame one tick later, at 5.004, shows the dawn colour itself. The red
  channel goes from 10/255 straight to the target 1.
\<close>

theorem sky_jumps_at_dawn:
  "r_c (background (animateSky 4.996 Clear initialScene)) \<noteq> r_c (targetSky 5.004 Clear)
   \<and> background (animateSky 5.004 Clear (animateSky 4.996 Clear initialScene))
       = targetSky 5.004 Clear
   \<and> \<not> strictly_between
          (r_c (background (animateSky 4.996 Clear initialScene)))
          (r_c (background (animateSky 5.004 Clear (animateSky 4.996 Clear initialScene))))
          (r_c (targetSky 5.004 Clear))"
  by (simp add: animateSky_background strictly_between_def targetSky_def setHex_def Let_def)

section \<open>The smoothing step: exact and in double precision\<close>

subsection \<open>Evaluating the rounding at a given binade\<close>

lemma two_powi_pos: "0 < (2::real) powi e"
  by (rule zero_less_power_int) simp

lemma two_powr_powi: "(2::real) powr (real_of_int e) = 2 powi e"
  by (simp add: powr_real_of_int')

lemma floor_log2_eq:
  assumes "2 powi e \<le> x" "x < 2 powi (e + 1)"
  shows "\<lfloor>log 2 x\<rfloor> = e"
proof -
  have p: "0 < x"
    using two_powi_pos [of e] assms(1) by (rule less_le_trans)
  have "2 powr (real_of_int e) \<le> x"
    using assms(1) by (simp only: two_powr_powi)
  moreover have "x < 2 powr (real_of_int e + 1)"
    using assms(2) two_powr_powi [of "e + 1"] by simp
  ultimately show ?thesis
    using floor_log_eq_powr_iff [of x 2 e] p by simp
qed

lemma ulp_exp_eq:
  assumes "2 powi e \<le> \<bar>x\<bar>" "\<bar>x\<bar> < 2 powi (e + 1)" "- 1022 \<le> e"
  shows "ulp_exp x = e - 52"
  using floor_log2_eq [OF assms(1,2)] assms(3) by (simp add: ulp_exp_def)

lemma fl_eval:
  assumes "2 powi e \<le> \<bar>x\<bar>" "\<bar>x\<bar> < 2 powi (e + 1)" "- 1022 \<le> e"
  shows "fl x = of_int (round_even (x / 2 powi (e - 52))) * 2 powi (e - 52)"
proof -
  have "0 < \<bar>x\<bar>"
    using two_powi_pos [of e] assms(1) by (rule less_le_trans)
  then have "x \<noteq> 0" by simp
  then show ?thesis by (simp add: fl_def ulp_exp_eq [OF assms])
qed

lemma fl_005: "fl 0.05 = 3602879701896397 / 2 ^ 56"
  by (subst fl_eval [where e = "-5"]) (simp_all add: round_even_def power_int_minus)


subsection \<open>Rounding to an integer\<close>

lemma round_even_err: "\<bar>of_int (round_even v) - v\<bar> \<le> 1 / 2"
proof -
  have "of_int \<lfloor>v\<rfloor> \<le> v" "v < of_int \<lfloor>v\<rfloor> + 1" by linarith+
  then show ?thesis
    by (auto simp: round_even_def Let_def)
qed

lemma round_even_ge: "of_int n \<le> v \<Longrightarrow> n \<le> round_even v"
  using round_even_err [of v] by linarith

lemma round_even_le: "v \<le> of_int n \<Longrightarrow> round_even v \<le> n"
  using round_even_err [of v] by linarith

lemma round_even_le_twice: "0 \<le> v \<Longrightarrow> of_int (round_even v) \<le> 2 * v"
proof (cases "v < 1 / 2")
  case True
  then have "round_even v \<le> 0"
    using round_even_err [of v] by linarith
  moreover assume "0 \<le> v"
  ultimately show ?thesis by linarith
next
  case False
  then show ?thesis
    using round_even_err [of v] by linarith
qed

lemma round_even_ge_twice: "v \<le> 0 \<Longrightarrow> 2 * v \<le> of_int (round_even v)"
proof (cases "- (1 / 2) < v")
  case True
  then have "0 \<le> round_even v"
    using round_even_err [of v] by linarith
  moreover assume "v \<le> 0"
  ultimately show ?thesis by linarith
next
  case False
  then show ?thesis
    using round_even_err [of v] by linarith
qed

subsection \<open>Rounding to a double\<close>

lemma fl_unfold: "v \<noteq> 0 \<Longrightarrow> fl v = of_int (round_even (v / 2 powi ulp_exp v)) * 2 powi ulp_exp v"
  by (simp add: fl_def)

lemma fl_0: "fl 0 = 0"
  by (simp add: fl_def)

lemma fl_err: "\<bar>fl v - v\<bar> \<le> 2 powi ulp_exp v / 2"
proof (cases "v = 0")
  case True
  then show ?thesis by (simp add: fl_0)
next
  case False
  let ?P = "(2::real) powi ulp_exp v"
  have P: "0 < ?P" by (rule two_powi_pos)
  have "fl v - v = (of_int (round_even (v / ?P)) - v / ?P) * ?P"
    using P by (simp add: fl_unfold [OF False] field_simps)
  then have "\<bar>fl v - v\<bar> = \<bar>of_int (round_even (v / ?P)) - v / ?P\<bar> * ?P"
    using P by (simp add: abs_mult)
  also have "\<dots> \<le> (1 / 2) * ?P"
    using P round_even_err [of "v / ?P"] by (intro mult_right_mono) simp_all
  finally show ?thesis by simp
qed

lemma fl_nonneg: "0 \<le> v \<Longrightarrow> 0 \<le> fl v"
proof (cases "v = 0")
  case True
  then show ?thesis by (simp add: fl_0)
next
  case False
  assume "0 \<le> v"
  then have "of_int 0 \<le> v / 2 powi ulp_exp v"
    using two_powi_pos [of "ulp_exp v"] by simp
  then have "0 \<le> round_even (v / 2 powi ulp_exp v)"
    by (rule round_even_ge)
  then show ?thesis
    using two_powi_pos [of "ulp_exp v"] by (simp add: fl_unfold [OF False])
qed

lemma fl_nonpos: "v \<le> 0 \<Longrightarrow> fl v \<le> 0"
proof (cases "v = 0")
  case True
  then show ?thesis by (simp add: fl_0)
next
  case False
  assume "v \<le> 0"
  then have "v / 2 powi ulp_exp v \<le> of_int 0"
    using two_powi_pos [of "ulp_exp v"] by (simp add: divide_nonpos_pos)
  then have "round_even (v / 2 powi ulp_exp v) \<le> 0"
    by (rule round_even_le)
  then show ?thesis
    using two_powi_pos [of "ulp_exp v"]
    by (simp add: fl_unfold [OF False] mult_nonpos_nonneg)
qed

lemma fl_le_twice: "0 \<le> v \<Longrightarrow> fl v \<le> 2 * v"
proof (cases "v = 0")
  case True
  then show ?thesis by (simp add: fl_0)
next
  case False
  let ?P = "(2::real) powi ulp_exp v"
  have P: "0 < ?P" by (rule two_powi_pos)
  assume "0 \<le> v"
  then have "0 \<le> v / ?P" using P by simp
  then have "of_int (round_even (v / ?P)) \<le> 2 * (v / ?P)"
    by (rule round_even_le_twice)
  then have "of_int (round_even (v / ?P)) * ?P \<le> 2 * (v / ?P) * ?P"
    using P by (intro mult_right_mono) simp_all
  then show ?thesis
    using P by (simp add: fl_unfold [OF False])
qed

lemma fl_ge_twice: "v \<le> 0 \<Longrightarrow> 2 * v \<le> fl v"
proof (cases "v = 0")
  case True
  then show ?thesis by (simp add: fl_0)
next
  case False
  let ?P = "(2::real) powi ulp_exp v"
  have P: "0 < ?P" by (rule two_powi_pos)
  assume "v \<le> 0"
  then have "v / ?P \<le> 0" using P by (simp add: divide_nonpos_pos)
  then have "2 * (v / ?P) \<le> of_int (round_even (v / ?P))"
    by (rule round_even_ge_twice)
  then have "2 * (v / ?P) * ?P \<le> of_int (round_even (v / ?P)) * ?P"
    using P by (intro mult_right_mono) simp_all
  then show ?thesis
    using P by (simp add: fl_unfold [OF False])
qed

subsection \<open>The binade of a positive real\<close>

lemma floor_log2_bounds:
  assumes "0 < x"
  shows "2 powi \<lfloor>log 2 x\<rfloor> \<le> x" and "x < 2 powi (\<lfloor>log 2 x\<rfloor> + 1)"
proof -
  have "2 powr (real_of_int \<lfloor>log 2 x\<rfloor>) \<le> x \<and> x < 2 powr (real_of_int \<lfloor>log 2 x\<rfloor> + 1)"
    using floor_log_eq_powr_iff [of x 2 "\<lfloor>log 2 x\<rfloor>"] assms by simp
  then show "2 powi \<lfloor>log 2 x\<rfloor> \<le> x" and "x < 2 powi (\<lfloor>log 2 x\<rfloor> + 1)"
    using two_powr_powi [of "\<lfloor>log 2 x\<rfloor>"] two_powr_powi [of "\<lfloor>log 2 x\<rfloor> + 1"] by simp_all
qed

lemma floor_log2_mono: "0 < x \<Longrightarrow> x \<le> y \<Longrightarrow> \<lfloor>log 2 x\<rfloor> \<le> \<lfloor>log 2 y\<rfloor>"
  by (intro floor_mono) simp

lemma ulp_exp_mono: "0 < x \<Longrightarrow> x \<le> y \<Longrightarrow> ulp_exp x \<le> ulp_exp y"
  using floor_log2_mono [of x y] by (simp add: ulp_exp_def)

lemma two_powi_mono: "m \<le> n \<Longrightarrow> (2::real) powi m \<le> 2 powi n"
  by (rule power_int_increasing) simp_all

lemma below_top: "0 < x \<Longrightarrow> x < 2 powi (ulp_exp x + 53)"
proof -
  assume p: "0 < x"
  have "\<lfloor>log 2 x\<rfloor> + 1 \<le> ulp_exp x + 53"
    using p by (simp add: ulp_exp_def)
  then have "(2::real) powi (\<lfloor>log 2 x\<rfloor> + 1) \<le> 2 powi (ulp_exp x + 53)"
    by (rule two_powi_mono)
  with floor_log2_bounds(2) [OF p] show ?thesis by linarith
qed

lemma above_bottom: "0 < x \<Longrightarrow> - 1074 < ulp_exp x \<Longrightarrow> 2 powi (ulp_exp x + 52) \<le> x"
proof -
  assume p: "0 < x" and "- 1074 < ulp_exp x"
  then have "ulp_exp x + 52 = \<lfloor>log 2 x\<rfloor>"
    by (simp add: ulp_exp_def max_def split: if_splits)
  with floor_log2_bounds(1) [OF p] show ?thesis by simp
qed

subsection \<open>Rounding does not cross a double\<close>

lemma double_multiple:
  assumes "fl a = a" "a \<noteq> 0"
  shows "a / 2 powi ulp_exp a = of_int (round_even (a / 2 powi ulp_exp a))"
proof -
  have "a = of_int (round_even (a / 2 powi ulp_exp a)) * 2 powi ulp_exp a"
    using assms fl_unfold [of a] by simp
  then have "a / 2 powi ulp_exp a
      = of_int (round_even (a / 2 powi ulp_exp a)) * 2 powi ulp_exp a / 2 powi ulp_exp a"
    by simp
  then show ?thesis
    using two_powi_pos [of "ulp_exp a"] by simp
qed

lemma fl_ge_double:
  assumes "0 \<le> a" "fl a = a" "a \<le> x"
  shows "a \<le> fl x"
proof (cases "a = 0")
  case True
  with assms show ?thesis by (simp add: fl_nonneg)
next
  case False
  with assms have a: "0 < a" and x: "0 < x" by simp_all
  let ?ea = "ulp_exp a" and ?ex = "ulp_exp x"
  have P: "0 < (2::real) powi ?ex" by (rule two_powi_pos)
  have le: "?ea \<le> ?ex" using a assms(3) by (rule ulp_exp_mono)
  have fx: "fl x = of_int (round_even (x / 2 powi ?ex)) * 2 powi ?ex"
    using x by (simp add: fl_unfold)
  show ?thesis
  proof (cases "?ea = ?ex")
    case True
    let ?n = "round_even (a / 2 powi ?ex)"
    have m: "a / 2 powi ?ex = of_int ?n"
      using double_multiple [OF assms(2) False] True by simp
    have "a / 2 powi ?ex \<le> x / 2 powi ?ex"
      using assms(3) P by (simp add: divide_right_mono)
    then have "of_int ?n \<le> x / 2 powi ?ex" by (simp only: m [symmetric])
    then have "?n \<le> round_even (x / 2 powi ?ex)" by (rule round_even_ge)
    then have "real_of_int ?n * 2 powi ?ex \<le> of_int (round_even (x / 2 powi ?ex)) * 2 powi ?ex"
      using P by (intro mult_right_mono) simp_all
    moreover have "a = real_of_int ?n * 2 powi ?ex"
      using m P by (simp add: field_simps)
    ultimately show ?thesis by (simp only: fx)
  next
    case False
    with le have lt: "?ea < ?ex" by simp
    then have big: "- 1074 < ?ex" by (simp add: ulp_exp_def)
    have "a < 2 powi (?ea + 53)" using a by (rule below_top)
    also have "\<dots> \<le> 2 powi (?ex + 52)" using lt by (intro two_powi_mono) simp
    finally have a_lt: "a < 2 powi (?ex + 52)" .
    have "2 powi (?ex + 52) \<le> x" using x big by (rule above_bottom)
    then have "2 powi (?ex + 52) / 2 powi ?ex \<le> x / 2 powi ?ex"
      using P by (simp add: divide_right_mono)
    moreover have "(2::real) powi (?ex + 52) / 2 powi ?ex = of_int (2 ^ 52)"
      by (simp add: power_int_add)
    ultimately have "of_int (2 ^ 52) \<le> x / 2 powi ?ex" by simp
    then have "2 ^ 52 \<le> round_even (x / 2 powi ?ex)" by (rule round_even_ge)
    then have "real_of_int (2 ^ 52) * 2 powi ?ex \<le> of_int (round_even (x / 2 powi ?ex)) * 2 powi ?ex"
      using P by (intro mult_right_mono) simp_all
    moreover have "of_int (2 ^ 52) * 2 powi ?ex = (2::real) powi (?ex + 52)"
      by (simp add: power_int_add)
    ultimately have "2 powi (?ex + 52) \<le> fl x" by (simp only: fx)
    with a_lt show ?thesis by linarith
  qed
qed

lemma fl_le_double:
  assumes "0 \<le> x" "x \<le> b" "fl b = b"
  shows "fl x \<le> b"
proof (cases "x = 0")
  case True
  with assms show ?thesis by (simp add: fl_0)
next
  case False
  with assms have x: "0 < x" and b: "0 < b" by simp_all
  let ?ex = "ulp_exp x" and ?eb = "ulp_exp b"
  have P: "0 < (2::real) powi ?ex" by (rule two_powi_pos)
  have le: "?ex \<le> ?eb" using x assms(2) by (rule ulp_exp_mono)
  have fx: "fl x = of_int (round_even (x / 2 powi ?ex)) * 2 powi ?ex"
    using x by (simp add: fl_unfold)
  show ?thesis
  proof (cases "?ex = ?eb")
    case True
    let ?n = "round_even (b / 2 powi ?ex)"
    have m: "b / 2 powi ?ex = of_int ?n"
      using double_multiple [OF assms(3)] b True by simp
    have "x / 2 powi ?ex \<le> b / 2 powi ?ex"
      using assms(2) P by (simp add: divide_right_mono)
    then have "x / 2 powi ?ex \<le> of_int ?n" by (simp only: m [symmetric])
    then have "round_even (x / 2 powi ?ex) \<le> ?n" by (rule round_even_le)
    then have "real_of_int (round_even (x / 2 powi ?ex)) * 2 powi ?ex \<le> real_of_int ?n * 2 powi ?ex"
      using P by (intro mult_right_mono) simp_all
    moreover have "b = real_of_int ?n * 2 powi ?ex"
      using m P by (simp add: field_simps)
    ultimately show ?thesis by (simp only: fx)
  next
    case False
    with le have lt: "?ex < ?eb" by simp
    then have big: "- 1074 < ?eb" by (simp add: ulp_exp_def)
    have "x < 2 powi (?ex + 53)" using x by (rule below_top)
    then have "x / 2 powi ?ex < 2 powi (?ex + 53) / 2 powi ?ex"
      using P by (simp add: divide_strict_right_mono)
    moreover have "(2::real) powi (?ex + 53) / 2 powi ?ex = of_int (2 ^ 53)"
      by (simp add: power_int_add)
    ultimately have "x / 2 powi ?ex \<le> of_int (2 ^ 53)" by simp
    then have "round_even (x / 2 powi ?ex) \<le> 2 ^ 53" by (rule round_even_le)
    then have "real_of_int (round_even (x / 2 powi ?ex)) * 2 powi ?ex \<le> real_of_int (2 ^ 53) * 2 powi ?ex"
      using P by (intro mult_right_mono) simp_all
    moreover have "of_int (2 ^ 53) * 2 powi ?ex = (2::real) powi (?ex + 53)"
      by (simp add: power_int_add)
    ultimately have "fl x \<le> 2 powi (?ex + 53)" by (simp only: fx)
    also have "\<dots> \<le> 2 powi (?eb + 52)" using lt by (intro two_powi_mono) simp
    also have "\<dots> \<le> b" using b big by (rule above_bottom)
    finally show ?thesis .
  qed
qed

subsection \<open>The size of the rounding error\<close>

lemma ulp_exp_below:
  assumes "x \<noteq> 0" "\<bar>x\<bar> < 2 powi p" "- 1021 \<le> p"
  shows "ulp_exp x \<le> p - 53"
proof -
  have pos: "0 < \<bar>x\<bar>" using assms(1) by simp
  have "\<lfloor>log 2 \<bar>x\<bar>\<rfloor> < p"
  proof (rule ccontr)
    assume "\<not> \<lfloor>log 2 \<bar>x\<bar>\<rfloor> < p"
    then have "(2::real) powi p \<le> 2 powi \<lfloor>log 2 \<bar>x\<bar>\<rfloor>"
      by (intro two_powi_mono) simp
    with floor_log2_bounds(1) [OF pos] assms(2) show False by linarith
  qed
  with assms(3) show ?thesis by (simp add: ulp_exp_def)
qed

lemma fl_err_below:
  assumes "\<bar>x\<bar> < 2 powi p" "- 1021 \<le> p"
  shows "\<bar>fl x - x\<bar> \<le> 2 powi (p - 54)"
proof (cases "x = 0")
  case True
  then show ?thesis by (simp add: fl_0)
next
  case False
  have "ulp_exp x - 1 \<le> p - 54"
    using ulp_exp_below [OF False assms] by simp
  then have "(2::real) powi (ulp_exp x - 1) \<le> 2 powi (p - 54)"
    by (rule two_powi_mono)
  moreover have "(2::real) powi (ulp_exp x - 1) = 2 powi ulp_exp x / 2"
    by (simp add: power_int_diff)
  ultimately show ?thesis
    using fl_err [of x] by linarith
qed

subsection \<open>The step as the program computes it\<close>

lemma fl_005_exact: "fl 0.05 = 0.05 + 1 / (5 * 2 ^ 56)"
  unfolding fl_005 by simp

lemma lerp_double_fixed: "fl t = t \<Longrightarrow> lerp_double t t = t"
  by (simp add: lerp_double_def fl_0)

lemma increment_up:
  assumes "0 \<le> u"
  shows "0 \<le> fl (fl u * fl 0.05)" and "fl (fl u * fl 0.05) \<le> u"
proof -
  let ?d = "fl u" and ?k = "fl 0.05"
  have k: "0 \<le> ?k" "?k \<le> 1 / 4" unfolding fl_005 by simp_all
  have d: "0 \<le> ?d" "?d \<le> 2 * u"
    using assms by (simp_all add: fl_nonneg fl_le_twice)
  have p: "0 \<le> ?d * ?k" using d(1) k(1) by simp
  have "?d * ?k \<le> (2 * u) * (1 / 4)"
    using d k assms by (intro mult_mono) simp_all
  then have p2: "2 * (?d * ?k) \<le> u" by simp
  show "0 \<le> fl (?d * ?k)" using p by (rule fl_nonneg)
  show "fl (?d * ?k) \<le> u"
    using fl_le_twice [OF p] p2 by linarith
qed

lemma increment_down:
  assumes "u \<le> 0"
  shows "fl (fl u * fl 0.05) \<le> 0" and "u \<le> fl (fl u * fl 0.05)"
proof -
  let ?d = "fl u" and ?k = "fl 0.05"
  have k: "0 \<le> ?k" "?k \<le> 1 / 4" unfolding fl_005 by simp_all
  have d: "?d \<le> 0" "2 * u \<le> ?d"
    using assms by (simp_all add: fl_nonpos fl_ge_twice)
  have p: "?d * ?k \<le> 0" using d(1) k(1) by (simp add: mult_nonpos_nonneg)
  have "(- ?d) * ?k \<le> (- (2 * u)) * (1 / 4)"
    using d k assms by (intro mult_mono) simp_all
  then have p2: "u \<le> 2 * (?d * ?k)" by simp
  show "fl (?d * ?k) \<le> 0" using p by (rule fl_nonpos)
  show "u \<le> fl (?d * ?k)"
    using fl_ge_twice [OF p] p2 by linarith
qed

lemma lerp_double_between:
  assumes "0 \<le> c" "0 \<le> t" "fl c = c" "fl t = t"
  shows "min c t \<le> lerp_double c t" and "lerp_double c t \<le> max c t"
proof -
  let ?m = "fl (fl (t - c) * fl 0.05)"
  have "min c t \<le> lerp_double c t \<and> lerp_double c t \<le> max c t"
  proof (cases "c \<le> t")
    case True
    then have m: "0 \<le> ?m" "?m \<le> t - c"
      using increment_up [of "t - c"] by simp_all
    have "c \<le> fl (c + ?m)"
      using assms(1,3) m(1) by (intro fl_ge_double) simp_all
    moreover have "fl (c + ?m) \<le> t"
      using assms(1,4) m by (intro fl_le_double) simp_all
    ultimately show ?thesis using True by (simp add: lerp_double_def)
  next
    case False
    then have m: "?m \<le> 0" "t - c \<le> ?m"
      using increment_down [of "t - c"] by simp_all
    have "t \<le> fl (c + ?m)"
      using assms(2,4) m(2) by (intro fl_ge_double) simp_all
    moreover have "fl (c + ?m) \<le> c"
      using assms(2,3) m by (intro fl_le_double) simp_all
    ultimately show ?thesis using False by (simp add: lerp_double_def)
  qed
  then show "min c t \<le> lerp_double c t" and "lerp_double c t \<le> max c t"
    by simp_all
qed

lemma fl_abs_le_twice: "\<bar>fl v\<bar> \<le> 2 * \<bar>v\<bar>"
proof (cases "0 \<le> v")
  case True
  then show ?thesis using fl_nonneg [of v] fl_le_twice [of v] by simp
next
  case False
  then show ?thesis using fl_nonpos [of v] fl_ge_twice [of v] by simp
qed

lemma four_terms:
  fixes A B C D :: real
  assumes "\<bar>A\<bar> \<le> a" "\<bar>B\<bar> \<le> b" "\<bar>C\<bar> \<le> c" "\<bar>D\<bar> \<le> d" "a + b + c + d \<le> e"
  shows "\<bar>A + B + C + D\<bar> \<le> e"
proof -
  have "\<bar>A + B + C + D\<bar> \<le> \<bar>A\<bar> + \<bar>B\<bar> + \<bar>C\<bar> + \<bar>D\<bar>"
    by (intro order_trans [OF abs_triangle_ineq] add_mono order_refl)
  with assms show ?thesis by linarith
qed

lemma lerp_double_err:
  assumes "0 \<le> c" "c \<le> 100" "0 \<le> t" "t \<le> 100" "fl c = c" "fl t = t"
  shows "\<bar>lerp_double c t - lerp c t\<bar> \<le> 1 / 2 ^ 46"
proof -
  let ?u = "t - c"
  let ?d = "fl ?u"
  let ?p = "?d * fl 0.05"
  let ?m = "fl ?p"
  have u: "\<bar>?u\<bar> \<le> 100" using assms by simp
  have e1: "\<bar>?d - ?u\<bar> \<le> 1 / 2 ^ 47"
    using fl_err_below [of ?u 7] u by simp
  have "2 * \<bar>?u\<bar> \<le> 200" using u by simp
  with fl_abs_le_twice [of ?u] have d: "\<bar>?d\<bar> \<le> 200"
    by (rule order_trans)
  have pk: "?p = ?d * 0.05 + ?d * (1 / (5 * 2 ^ 56))"
    by (simp only: fl_005_exact distrib_left)
  have "\<bar>?d * (1 / (5 * 2 ^ 56))\<bar> = \<bar>?d\<bar> * (1 / (5 * 2 ^ 56))"
    by (simp add: abs_mult)
  also have "\<dots> \<le> 200 * (1 / (5 * 2 ^ 56))"
    using d by (intro mult_right_mono) simp_all
  finally have e4a: "\<bar>?d * (1 / (5 * 2 ^ 56))\<bar> \<le> 200 * (1 / (5 * 2 ^ 56))" .
  have pabs: "\<bar>?p\<bar> \<le> 50"
  proof -
    have "\<bar>?p\<bar> = \<bar>?d\<bar> * fl 0.05"
      unfolding fl_005 by (simp add: abs_mult)
    also have "\<dots> \<le> 200 * (1 / 4)"
      using d unfolding fl_005 by (intro mult_mono) simp_all
    finally show ?thesis by simp
  qed
  have e2: "\<bar>?m - ?p\<bar> \<le> 1 / 2 ^ 48"
    using fl_err_below [of ?p 6] pabs by simp
  have b: "min c t \<le> c + ?m" "c + ?m \<le> max c t"
    using increment_up [of ?u] increment_down [of ?u] by (auto simp: min_def max_def)
  then have "\<bar>c + ?m\<bar> \<le> 100" using assms by (auto simp: min_def max_def split: if_splits)
  then have e3: "\<bar>fl (c + ?m) - (c + ?m)\<bar> \<le> 1 / 2 ^ 47"
    using fl_err_below [of "c + ?m" 7] by simp
  have e5: "\<bar>(?d - ?u) * 0.05\<bar> \<le> (1 / 2 ^ 47) * 0.05"
  proof -
    have "\<bar>(?d - ?u) * 0.05\<bar> = \<bar>?d - ?u\<bar> * 0.05"
      by (simp add: abs_mult)
    also have "\<dots> \<le> (1 / 2 ^ 47) * 0.05"
      using e1 by (intro mult_right_mono) simp_all
    finally show ?thesis .
  qed
  have s: "lerp_double c t - lerp c t
      = (fl (c + ?m) - (c + ?m)) + (?m - ?p) + (?d - ?u) * 0.05 + ?d * (1 / (5 * 2 ^ 56))"
    unfolding lerp_double_def lerp_def pk by (simp add: field_simps)
  have n: "1 / 2 ^ 47 + 1 / 2 ^ 48 + (1 / 2 ^ 47) * 0.05 + 200 * (1 / (5 * 2 ^ 56))
             \<le> (1 / 2 ^ 46 :: real)"
    by simp
  show ?thesis
    unfolding s by (rule four_terms [OF e3 e2 e5 e4a n])
qed

lemma fl_literal_c: "fl 99.99999999999986 = 100 - 10 / 2 ^ 46"
  by (subst fl_eval [where e = 6]) (simp_all add: round_even_def power_int_minus)

lemma fl_100: "fl 100 = 100"
  by (subst fl_eval [where e = 6]) (simp_all add: round_even_def power_int_minus)

lemma fl_50: "fl 50 = 50"
  by (subst fl_eval [where e = 5]) (simp_all add: round_even_def power_int_minus)

lemma stall_difference: "fl (10 / 2 ^ 46) = 10 / 2 ^ 46"
  by (subst fl_eval [where e = "-43"]) (simp_all add: round_even_def power_int_minus)

lemma stall_increment: "fl (10 / 2 ^ 46 * (3602879701896397 / 2 ^ 56)) = 1 / 2 ^ 47"
  by (subst fl_eval [where e = "-47"]) (simp_all add: round_even_def power_int_minus)

lemma stall_sum: "fl (100 - 10 / 2 ^ 46 + 1 / 2 ^ 47) = 100 - 10 / 2 ^ 46"
  by (subst fl_eval [where e = 6]) (simp_all add: round_even_def power_int_minus)

lemma lerp_double_stall_value: "lerp_double (100 - 10 / 2 ^ 46) 100 = 100 - 10 / 2 ^ 46"
proof -
  have "100 - (100 - 10 / 2 ^ 46) = (10 / 2 ^ 46 :: real)" by simp
  then show ?thesis
    unfolding lerp_double_def fl_005
    by (simp only: stall_difference stall_increment stall_sum)
qed

lemma lerp_distance: "\<bar>lerp c t - t\<bar> = 0.95 * \<bar>c - t\<bar>"
proof -
  have "lerp c t - t = 0.95 * (c - t)"
    by (simp add: lerp_def field_simps)
  then have "\<bar>lerp c t - t\<bar> = \<bar>0.95\<bar> * \<bar>c - t\<bar>"
    by (simp only: abs_mult)
  moreover have "\<bar>0.95 :: real\<bar> = 0.95"
    by simp
  ultimately show ?thesis by (simp only:)
qed

text \<open>
  Claim C5, as amended. One smoothing step from the current demand value c toward the
  target t, both doubles in [0,100], evaluates c + (t - c) * 0.05 in double arithmetic. A
  value at its target stays there. The result is within 2 to the power -46 of the exact
  value of the expression, so the distance to the target after the step is 0.95 times the
  distance before up to that rounding error; the result lies between c and t, so the
  distance never grows and the target is never passed. The reduction is not always
  strict: see the next theorem.
\<close>

theorem lerp_double_step:
  "(fl t = t \<longrightarrow> lerp_double t t = t)
   \<and> (0 \<le> c \<and> c \<le> 100 \<and> 0 \<le> t \<and> t \<le> 100 \<and> fl c = c \<and> fl t = t \<longrightarrow>
        min c t \<le> lerp_double c t \<and> lerp_double c t \<le> max c t
        \<and> \<bar>lerp_double c t - t\<bar> \<le> \<bar>c - t\<bar>
        \<and> \<bar>lerp_double c t - (c + (t - c) * 0.05)\<bar> \<le> 1 / 2 ^ 46
        \<and> \<bar>\<bar>lerp_double c t - t\<bar> - 0.95 * \<bar>c - t\<bar>\<bar> \<le> 1 / 2 ^ 46)"
proof (intro conjI impI)
  assume "fl t = t"
  then show "lerp_double t t = t" by (rule lerp_double_fixed)
next
  assume a: "0 \<le> c \<and> c \<le> 100 \<and> 0 \<le> t \<and> t \<le> 100 \<and> fl c = c \<and> fl t = t"
  then have lo: "min c t \<le> lerp_double c t" and hi: "lerp_double c t \<le> max c t"
    by (simp_all add: lerp_double_between)
  show "min c t \<le> lerp_double c t" by (rule lo)
  show "lerp_double c t \<le> max c t" by (rule hi)
  show "\<bar>lerp_double c t - t\<bar> \<le> \<bar>c - t\<bar>"
    using lo hi by (simp add: min_def max_def split: if_splits)
  have e: "\<bar>lerp_double c t - lerp c t\<bar> \<le> 1 / 2 ^ 46"
    using a by (intro lerp_double_err) simp_all
  then show "\<bar>lerp_double c t - (c + (t - c) * 0.05)\<bar> \<le> 1 / 2 ^ 46"
    by (simp only: lerp_def)
  have "\<bar>\<bar>lerp_double c t - t\<bar> - \<bar>lerp c t - t\<bar>\<bar> \<le> \<bar>(lerp_double c t - t) - (lerp c t - t)\<bar>"
    by (rule abs_triangle_ineq3)
  also have "\<dots> = \<bar>lerp_double c t - lerp c t\<bar>" by simp
  finally have "\<bar>\<bar>lerp_double c t - t\<bar> - \<bar>lerp c t - t\<bar>\<bar> \<le> 1 / 2 ^ 46"
    using e by (rule order_trans)
  then show "\<bar>\<bar>lerp_double c t - t\<bar> - 0.95 * \<bar>c - t\<bar>\<bar> \<le> 1 / 2 ^ 46"
    by (simp only: lerp_distance)
qed

theorem lerp_double_step_witness:
  "fl 100 = 100 \<and> fl 50 = 50
   \<and> lerp_double 100 100 = 100
   \<and> 50 \<le> lerp_double 100 50 \<and> lerp_double 100 50 \<le> 100
   \<and> \<bar>lerp_double 100 50 - 97.5\<bar> \<le> 1 / 2 ^ 46"
proof -
  have 1: "lerp_double 100 100 = 100"
    using lerp_double_step [of 100 100] fl_100 by simp
  have 2: "50 \<le> lerp_double 100 50 \<and> lerp_double 100 50 \<le> 100
           \<and> \<bar>lerp_double 100 50 - 97.5\<bar> \<le> 1 / 2 ^ 46"
    using lerp_double_step [of 50 100] fl_100 fl_50 by simp
  from 1 2 fl_100 fl_50 show ?thesis by blast
qed

text \<open>
  The claim C5 as first stated, that a step away from the target strictly reduces the
  distance, to exactly 0.95 of it, fails in the arithmetic of the program. From
  99.99999999999986, the double 100 - 10 / 2^46, toward the target 100 the increment
  rounds to half a unit in the last place, the sum is a tie, and the tie goes back to the
  even neighbour: the step returns 99.99999999999986 and the distance is unchanged.
\<close>

theorem lerp_double_stalls:
  "fl 99.99999999999986 = 100 - 10 / 2 ^ 46
   \<and> fl 100 = 100
   \<and> fl 99.99999999999986 \<noteq> fl 100
   \<and> lerp_double (fl 99.99999999999986) (fl 100) = fl 99.99999999999986
   \<and> \<not> \<bar>lerp_double (fl 99.99999999999986) (fl 100) - fl 100\<bar>
          < \<bar>fl 99.99999999999986 - fl 100\<bar>
   \<and> \<bar>lerp_double (fl 99.99999999999986) (fl 100) - fl 100\<bar>
          \<noteq> 0.95 * \<bar>fl 99.99999999999986 - fl 100\<bar>"
  unfolding fl_literal_c fl_100 lerp_double_stall_value by simp

end
